theory Spec2Isabelle
  imports Main "HOL-Library.Sublist"
begin

section \<open>sync\_docker\_images.py: data\<close>

text \<open>
  The script keeps one dictionary per image:tag, keyed by field name, and appends each to
  the global list \<open>images\<close>. A Python dictionary with string keys is a map; a key that was
  never assigned is \<open>None\<close>, and reading it raises \<open>KeyError\<close>.
\<close>

type_synonym image_info = "string \<rightharpoonup> string"

text \<open>Line 15: the status messages for digest comparisons.\<close>

definition image_status :: "string list" where
  "image_status =
     [''Image doesn't exist on target'',
      ''Image already present on target'',
      ''Conflict: same tag exist in both registries with different digest'']"

text \<open>Lines 20-30: the first entry of \<open>images\<close>, the headers for the CSV export.\<close>

definition header_record :: image_info where
  "header_record =
     Map.empty(''image'' \<mapsto> ''Image'',
       ''tag'' \<mapsto> ''Tag'',
       ''source_digest'' \<mapsto> ''Source digest'',
       ''target_digest'' \<mapsto> ''Target digest'',
       ''status'' \<mapsto> ''Status'',
       ''pull_command'' \<mapsto> ''Pull command'',
       ''retag_command'' \<mapsto> ''Retag command'',
       ''push_command'' \<mapsto> ''Push command'',
       ''cleanup_source'' \<mapsto> ''Cleanup source image'',
       ''cleanup_target'' \<mapsto> ''Cleanup target image'')"

text \<open>
  What a \<open>requests\<close> response gives the script: the status code (never read by the script)
  and the response headers. \<open>headers r name\<close> is what looking the name up in the
  response's header mapping gives (\<open>requests\<close> compares header names without regard
  to case).
\<close>

record response =
  status_code :: nat
  headers :: "string \<rightharpoonup> string"

section \<open>Digest lookup (lines 105-110)\<close>

text \<open>
  \<open>digest = ""\<close>, then overwritten by the header's value when the response has a
  \<open>Docker-Content-Digest\<close> header. The status code plays no part.
\<close>

definition digest_of :: "response \<Rightarrow> string" where
  "digest_of r =
     (case headers r ''Docker-Content-Digest'' of
        None \<Rightarrow> ''''
      | Some d \<Rightarrow> d)"

section \<open>Scheme stripping (lines 113-114)\<close>

text \<open>
  \<open>re.sub(".*://", "", s)\<close>. The pattern is a greedy \<open>.*\<close> followed by the literal
  \<open>://\<close>; \<open>.\<close> matches every character but the newline. \<open>match_scheme s\<close> is one match
  attempt anchored at the start of \<open>s\<close>, with the backtracking order of the regular
  expression engine: first let \<open>.*\<close> take one more character, and only when the rest
  cannot match, try the literal here. It returns what follows the match.
\<close>

fun match_scheme :: "string \<Rightarrow> string option" where
  "match_scheme [] = None"
| "match_scheme (c # cs) =
     (case (if c = CHR 0x0A then None else match_scheme cs) of
        Some rest \<Rightarrow> Some rest
      | None \<Rightarrow> (if take 3 (c # cs) = ''://'' then Some (drop 3 (c # cs)) else None))"

lemma match_scheme_shorter: "match_scheme s = Some rest \<Longrightarrow> length rest < length s"
proof (induction s)
  case Nil
  then show ?case by simp
next
  case (Cons c cs)
  then show ?case
    by (fastforce split: option.splits if_splits)
qed

text \<open>
  \<open>re.sub\<close> scans from the left: where the pattern matches, the match is replaced by the
  empty string and the scan goes on after it; where it does not, the character is kept.
  Every match has at least three characters, so the rule for empty matches never applies.
\<close>

function re_sub_scheme :: "string \<Rightarrow> string" where
  "re_sub_scheme s =
     (case match_scheme s of
        Some rest \<Rightarrow> re_sub_scheme rest
      | None \<Rightarrow> (case s of [] \<Rightarrow> [] | c # cs \<Rightarrow> c # re_sub_scheme cs))"
  by pat_completeness auto
termination
  by (relation "measure length") (auto dest: match_scheme_shorter)

declare re_sub_scheme.simps [simp del]

section \<open>Classification (lines 124-129)\<close>

text \<open>
  The \<open>if\<close>/\<open>elif\<close>/\<open>elif\<close> chain has no \<open>else\<close>: when no branch is taken the key
  \<open>status\<close> stays unassigned. \<open>status_of\<close> is the value assigned, if any.
  \<open>not target_digest\<close> holds of a string exactly when it is empty.
\<close>

definition status_of :: "string \<Rightarrow> string \<Rightarrow> string option" where
  "status_of source_digest target_digest =
     (if target_digest = '''' then Some (image_status ! 0)
      else if source_digest = target_digest then Some (image_status ! 1)
      else if source_digest \<noteq> target_digest then Some (image_status ! 2)
      else None)"

section \<open>One record per image:tag (lines 113-134)\<close>

text \<open>
  The loop variable \<open>image\<close> of the source is written \<open>img\<close>: \<open>image\<close> is the
  image of a set under a function in HOL.
\<close>

definition image_record ::
  "string \<Rightarrow> string \<Rightarrow> string \<Rightarrow> string \<Rightarrow> string \<Rightarrow> string \<Rightarrow> image_info" where
  "image_record source_registry target_registry img tag source_digest target_digest =
     (let source_registry_plain = re_sub_scheme source_registry;
          target_registry_plain = re_sub_scheme target_registry;
          source_image = source_registry_plain @ ''/'' @ img @ '':'' @ tag;
          target_image = target_registry_plain @ ''/'' @ img @ '':'' @ tag;
          info = Map.empty(''image'' \<mapsto> img,
                   ''tag'' \<mapsto> tag,
                   ''source_digest'' \<mapsto> source_digest,
                   ''target_digest'' \<mapsto> target_digest);
          info = (case status_of source_digest target_digest of
                    Some s \<Rightarrow> info(''status'' \<mapsto> s)
                  | None \<Rightarrow> info)
      in info(''pull_command'' \<mapsto> ''docker pull '' @ source_image,
           ''retag_command'' \<mapsto> ''docker tag '' @ source_image @ '' '' @ target_image,
           ''push_command'' \<mapsto> ''docker push '' @ target_image,
           ''cleanup_source'' \<mapsto> ''docker rmi '' @ source_image,
           ''cleanup_target'' \<mapsto> ''docker rmi '' @ target_image))"

section \<open>The registries, as the script meets them\<close>

text \<open>
  \<open>session.get\<close> either returns a response or raises (a timeout, a connection error, a
  malformed response: \<open>requests.exceptions.RequestException\<close>). The script has no
  \<open>try\<close> around any of its requests.
\<close>

datatype 'a reply = TransportError | Reply 'a

text \<open>\<open>response.json()\<close> raises on a body that is not JSON.\<close>

datatype 'a body = NotJson | Json 'a

text \<open>
  A key of the decoded object whose value the script iterates over: the key may be
  missing, its value may be \<open>null\<close>, or it is a list. Values of other JSON types
  under such a key lie outside the model.
\<close>

datatype 'a field = Missing | Null | Items "'a list"

text \<open>
  An entry of the \<open>errors\<close> list, taken to have the two string fields that line 73
  reads.
\<close>

record error_entry =
  code :: string
  message :: string

record catalog_json =
  errors :: "error_entry field"
  repositories :: "string field"

record tags_json =
  tags :: "string field"

text \<open>
  Lines 76-94: the Docker client and the two logins (tried only when a user and a password
  are given). Either all of it succeeds, or \<open>docker.from_env\<close> raises, or one login is
  rejected with an error text.
\<close>

datatype docker_setup =
  ClientReady | ClientUnavailable | SourceLoginRejected string | TargetLoginRejected string

text \<open>
  Everything outside the script that one run depends on, from the catalog request
  (line 68) on: the two registry addresses given on the command line, and what each
  request returns. A registry answers the same request the same way throughout a run.
  Argument parsing and the session set-up of lines 41-65 lie before this point.
\<close>

record env =
  source_registry :: string
  target_registry :: string
  catalog :: "catalog_json body reply"
  docker :: docker_setup
  tags_list :: "string \<Rightarrow> tags_json body reply"
  source_manifest :: "string \<Rightarrow> string \<Rightarrow> response reply"
  target_manifest :: "string \<Rightarrow> string \<Rightarrow> response reply"

section \<open>State and control\<close>

datatype py_error =
  RequestException | JSONDecodeError | KeyError string | TypeError | DockerException
  | SystemExit nat

text \<open>
  The global list \<open>images\<close>, the lines printed so far, and the rows written to
  \<open>output.csv\<close> (\<open>None\<close> until the file is written).
\<close>

record run_state =
  images :: "image_info list"
  printed :: "string list"
  csv_file :: "image_info list option"

text \<open>
  A run, or a part of it, either goes through or stops at an exception that nothing
  catches (\<open>exit(1)\<close> raises \<open>SystemExit\<close>); either way it leaves a state.
\<close>

datatype outcome = Finished run_state | Stopped py_error run_state

definition and_then :: "outcome \<Rightarrow> (run_state \<Rightarrow> outcome) \<Rightarrow> outcome" where
  "and_then r f = (case r of Finished st \<Rightarrow> f st | Stopped e st \<Rightarrow> Stopped e st)"

text \<open>A \<open>for\<close> loop whose body may raise.\<close>

fun for_each :: "('a \<Rightarrow> run_state \<Rightarrow> outcome) \<Rightarrow> 'a list \<Rightarrow> run_state \<Rightarrow> outcome" where
  "for_each f [] st = Finished st"
| "for_each f (x # xs) st = and_then (f x st) (for_each f xs)"

definition print :: "string \<Rightarrow> run_state \<Rightarrow> run_state" where
  "print line st = st\<lparr>printed := printed st @ [line]\<rparr>"

section \<open>The catalog check (lines 69-74)\<close>

text \<open>\<open>exit(1)\<close> stands inside the loop over the errors: the first error ends the run.\<close>

definition check_errors :: "env \<Rightarrow> catalog_json \<Rightarrow> run_state \<Rightarrow> outcome" where
  "check_errors w c st =
     (case errors c of
        Missing \<Rightarrow> Finished st
      | Null \<Rightarrow> Stopped TypeError st
      | Items es \<Rightarrow>
          (case es of
             [] \<Rightarrow> Finished st
           | error # _ \<Rightarrow>
               Stopped (SystemExit 1)
                 (print (code error @ '': '' @ message error)
                   (print (''Error connecting to '' @ source_registry w @ '':'')
                     (print '''' st)))))"

section \<open>Docker client and logins (lines 76-94)\<close>

definition docker_login :: "env \<Rightarrow> run_state \<Rightarrow> outcome" where
  "docker_login w st =
     (case docker w of
        ClientReady \<Rightarrow> Finished st
      | ClientUnavailable \<Rightarrow> Stopped DockerException st
      | SourceLoginRejected err \<Rightarrow>
          Stopped (SystemExit 1)
            (print err (print (''Could not login to '' @ source_registry w @ '':'')
              (print '''' st)))
      | TargetLoginRejected err \<Rightarrow>
          Stopped (SystemExit 1)
            (print err (print (''Could not login to '' @ target_registry w @ '':'')
              (print '''' st))))"

section \<open>The loop over the catalog (lines 97-135)\<close>

text \<open>
  The body of the inner loop: the two manifest requests, source first, then the record
  is built and appended. A fresh dictionary is made for each record (line 119), so no
  record shares storage with an earlier one.
\<close>

definition process_tag :: "env \<Rightarrow> string \<Rightarrow> string \<Rightarrow> run_state \<Rightarrow> outcome" where
  "process_tag w img tag st =
     (case source_manifest w img tag of
        TransportError \<Rightarrow> Stopped RequestException st
      | Reply source_digest_request \<Rightarrow>
          (case target_manifest w img tag of
             TransportError \<Rightarrow> Stopped RequestException st
           | Reply target_digest_request \<Rightarrow>
               Finished (st\<lparr>images := images st @
                 [image_record (source_registry w) (target_registry w) img tag
                    (digest_of source_digest_request) (digest_of target_digest_request)]\<rparr>)))"

text \<open>The body of the outer loop: the tag list request, then \<open>tags.json()['tags']\<close>.\<close>

definition process_image :: "env \<Rightarrow> string \<Rightarrow> run_state \<Rightarrow> outcome" where
  "process_image w img st =
     (case tags_list w img of
        TransportError \<Rightarrow> Stopped RequestException st
      | Reply b \<Rightarrow>
          (case b of
             NotJson \<Rightarrow> Stopped JSONDecodeError st
           | Json t \<Rightarrow>
               (case tags t of
                  Missing \<Rightarrow> Stopped (KeyError ''tags'') st
                | Null \<Rightarrow> Stopped TypeError st
                | Items ts \<Rightarrow> for_each (process_tag w img) ts st)))"

definition process_catalog :: "env \<Rightarrow> catalog_json \<Rightarrow> run_state \<Rightarrow> outcome" where
  "process_catalog w c st =
     (case repositories c of
        Missing \<Rightarrow> Stopped (KeyError ''repositories'') st
      | Null \<Rightarrow> Stopped TypeError st
      | Items rs \<Rightarrow> for_each (process_image w) rs st)"

section \<open>CSV export (lines 138-152)\<close>

text \<open>
  \<open>csv_write\<close> is the constant \<open>True\<close>. \<open>writerows(images)\<close> writes every entry of
  \<open>images\<close>, the header entry first; how a row is laid out in the file is left to the
  \<open>csv\<close> module. The file is taken to be writable.
\<close>

definition write_csv :: "run_state \<Rightarrow> outcome" where
  "write_csv st = Finished (print ''CSV export completed'' (st\<lparr>csv_file := Some (images st)\<rparr>))"

section \<open>Dry run (lines 154-174)\<close>

text \<open>\<open>print(image[key])\<close>: reading a key that was never set raises \<open>KeyError\<close>.\<close>

definition print_item :: "image_info \<Rightarrow> string \<Rightarrow> run_state \<Rightarrow> outcome" where
  "print_item info key st =
     (case info key of
        None \<Rightarrow> Stopped (KeyError key) st
      | Some v \<Rightarrow> Finished (print v st))"

text \<open>Lines 159-165: the five commands and an empty line, for the first status only.\<close>

definition print_transfer :: "image_info \<Rightarrow> run_state \<Rightarrow> outcome" where
  "print_transfer info st =
     (case info ''status'' of
        None \<Rightarrow> Stopped (KeyError ''status'') st
      | Some s \<Rightarrow>
          (if s = image_status ! 0 then
             and_then (and_then (and_then (and_then (and_then
               (print_item info ''pull_command'' st)
               (print_item info ''retag_command''))
               (print_item info ''push_command''))
               (print_item info ''cleanup_source''))
               (print_item info ''cleanup_target''))
               (\<lambda>st. Finished (print '''' st))
           else Finished st))"

text \<open>Lines 173-174.\<close>

definition print_identity :: "string \<Rightarrow> image_info \<Rightarrow> run_state \<Rightarrow> outcome" where
  "print_identity status_message info st =
     (case info ''status'' of
        None \<Rightarrow> Stopped (KeyError ''status'') st
      | Some s \<Rightarrow>
          (if s = status_message then
             (case info ''image'' of
                None \<Rightarrow> Stopped (KeyError ''image'') st
              | Some i \<Rightarrow>
                  (case info ''tag'' of
                     None \<Rightarrow> Stopped (KeyError ''tag'') st
                   | Some t \<Rightarrow> Finished (print (i @ '':'' @ t) st)))
           else Finished st))"

text \<open>Lines 171-174: one status message, then the identities that carry it.\<close>

definition list_status :: "string \<Rightarrow> run_state \<Rightarrow> outcome" where
  "list_status status_message st =
     for_each (print_identity status_message) (drop 1 (images st)) (print status_message st)"

text \<open>\<open>dry_run\<close> is the constant \<open>True\<close>: only this branch of line 154 can run.\<close>

definition dry_run_print :: "run_state \<Rightarrow> outcome" where
  "dry_run_print st =
     and_then
       (for_each print_transfer (drop 1 (images st))
          (print ''These commands would run:'' (print '''' st)))
       (\<lambda>st. for_each list_status (drop 2 image_status) (print '''' st))"

section \<open>The whole run\<close>

definition initial_state :: run_state where
  "initial_state = \<lparr>images = [header_record], printed = [], csv_file = None\<rparr>"

definition run :: "env \<Rightarrow> outcome" where
  "run w =
     (case catalog w of
        TransportError \<Rightarrow> Stopped RequestException initial_state
      | Reply b \<Rightarrow>
          (case b of
             NotJson \<Rightarrow> Stopped JSONDecodeError initial_state
           | Json c \<Rightarrow>
               and_then (and_then (and_then (and_then
                 (check_errors w c initial_state)
                 (docker_login w))
                 (process_catalog w c))
                 write_csv)
                 dry_run_print))"

section \<open>The specification's vocabulary\<close>

text \<open>
  The specification speaks of digest observations and of three statuses. In the script an
  observation is the string left in \<open>source_digest\<close> or \<open>target_digest\<close>: the empty
  string is the initial value that stays when no header was found (line 105, 106) and is
  what line 124 tests for; any other string is a digest. The statuses are the three
  messages of line 15, in their order.
\<close>

datatype observation = Absent | Present string

definition observe :: "string \<Rightarrow> observation" where
  "observe d = (if d = '''' then Absent else Present d)"

datatype status = MissingOnTarget | InSync | Conflict

fun status_message :: "status \<Rightarrow> string" where
  "status_message MissingOnTarget = image_status ! 0"
| "status_message InSync = image_status ! 1"
| "status_message Conflict = image_status ! 2"

text \<open>The classification rule in the specification's words: the first match wins.\<close>

fun classify :: "observation \<Rightarrow> observation \<Rightarrow> status" where
  "classify _ Absent = MissingOnTarget"
| "classify (Present d1) (Present d2) = (if d1 = d2 then InSync else Conflict)"
| "classify Absent (Present _) = Conflict"

section \<open>What a run is expected to report\<close>

text \<open>
  The catalog enumeration, read off the replies: the repositories in the order of the
  catalog, and for each the tags in the order of its tag list. A reply that gives no
  list contributes nothing.
\<close>

definition listed :: "'a field \<Rightarrow> 'a list" where
  "listed f = (case f of Missing \<Rightarrow> [] | Null \<Rightarrow> [] | Items xs \<Rightarrow> xs)"

definition repositories_of :: "env \<Rightarrow> string list" where
  "repositories_of w =
     (case catalog w of
        TransportError \<Rightarrow> []
      | Reply b \<Rightarrow> (case b of NotJson \<Rightarrow> [] | Json c \<Rightarrow> listed (repositories c)))"

definition tags_of :: "env \<Rightarrow> string \<Rightarrow> string list" where
  "tags_of w img =
     (case tags_list w img of
        TransportError \<Rightarrow> []
      | Reply b \<Rightarrow> (case b of NotJson \<Rightarrow> [] | Json t \<Rightarrow> listed (tags t)))"

text \<open>The record that lines 103-134 build for one image:tag from the two manifest replies.\<close>

definition observed :: "response reply \<Rightarrow> string" where
  "observed r = (case r of TransportError \<Rightarrow> '''' | Reply x \<Rightarrow> digest_of x)"

definition record_of :: "env \<Rightarrow> string \<Rightarrow> string \<Rightarrow> image_info" where
  "record_of w img tag =
     image_record (source_registry w) (target_registry w) img tag
       (observed (source_manifest w img tag)) (observed (target_manifest w img tag))"

definition records_of_image :: "env \<Rightarrow> string \<Rightarrow> image_info list" where
  "records_of_image w img = map (record_of w img) (tags_of w img)"

text \<open>All records, in catalog enumeration order: repositories first, tags within.\<close>

definition expected_records :: "env \<Rightarrow> image_info list" where
  "expected_records w = concat (map (records_of_image w) (repositories_of w))"

text \<open>
  The identities of a run in enumeration order, and for each the status in the
  specification's terms, read off the two manifest replies.
\<close>

definition identities :: "env \<Rightarrow> (string \<times> string) list" where
  "identities w = concat (map (\<lambda>img. map (Pair img) (tags_of w img)) (repositories_of w))"

definition status_at :: "env \<Rightarrow> string \<Rightarrow> string \<Rightarrow> status" where
  "status_at w img tag =
     classify (observe (observed (source_manifest w img tag)))
       (observe (observed (target_manifest w img tag)))"

text \<open>
  The action plan in the specification's words: five ordered steps (retrieve from source,
  relabel for target, publish to target, remove the local source copy, remove the local
  target copy) for \<open>MissingOnTarget\<close>, no step for \<open>InSync\<close> and \<open>Conflict\<close>. The steps
  name the images by their scheme-stripped references.
\<close>

definition image_ref :: "string \<Rightarrow> string \<Rightarrow> string \<Rightarrow> string" where
  "image_ref registry img tag = re_sub_scheme registry @ ''/'' @ img @ '':'' @ tag"

fun transfer_plan :: "string \<Rightarrow> string \<Rightarrow> status \<Rightarrow> string list" where
  "transfer_plan source_image target_image MissingOnTarget =
     [''docker pull '' @ source_image,
      ''docker tag '' @ source_image @ '' '' @ target_image,
      ''docker push '' @ target_image,
      ''docker rmi '' @ source_image,
      ''docker rmi '' @ target_image]"
| "transfer_plan source_image target_image InSync = []"
| "transfer_plan source_image target_image Conflict = []"

definition plan_at :: "env \<Rightarrow> string \<Rightarrow> string \<Rightarrow> string list" where
  "plan_at w img tag =
     transfer_plan (image_ref (source_registry w) img tag)
       (image_ref (target_registry w) img tag) (status_at w img tag)"

text \<open>A plan as the dry run shows it: its steps and an empty line; nothing for no steps.\<close>

definition emitted :: "string list \<Rightarrow> string list" where
  "emitted plan = (if plan = [] then [] else plan @ [''''])"

text \<open>The state a run, or a part of it, leaves behind.\<close>

definition state_of :: "outcome \<Rightarrow> run_state" where
  "state_of r = (case r of Finished st \<Rightarrow> st | Stopped e st \<Rightarrow> st)"

text \<open>
  \<open>extends_by st ys r\<close>: the part of the run with outcome \<open>r\<close>, started in \<open>st\<close>, did
  nothing but append to \<open>images\<close>: all of \<open>ys\<close> when it went through, an initial stretch
  of \<open>ys\<close> when it stopped.
\<close>

definition appended :: "run_state \<Rightarrow> image_info list \<Rightarrow> run_state" where
  "appended st ys = st\<lparr>images := images st @ ys\<rparr>"

definition extends_by :: "run_state \<Rightarrow> image_info list \<Rightarrow> outcome \<Rightarrow> bool" where
  "extends_by st ys r =
     (case r of
        Finished s \<Rightarrow> s = appended st ys
      | Stopped e s \<Rightarrow> (\<exists>zs. prefix zs ys \<and> s = appended st zs))"

text \<open>\<open>prints_only st r\<close>: neither \<open>images\<close> nor the CSV file were touched.\<close>

definition prints_only :: "run_state \<Rightarrow> outcome \<Rightarrow> bool" where
  "prints_only st r \<longleftrightarrow>
     images (state_of r) = images st \<and> csv_file (state_of r) = csv_file st"

text \<open>
  The exception that lines 99-101 raise for a tag list reply, if any: the request itself
  raises, \<open>tags.json()\<close> raises, the key \<open>tags\<close> is missing, or its value is \<open>null\<close>
  and cannot be iterated over.
\<close>

definition tags_failure :: "tags_json body reply \<Rightarrow> py_error option" where
  "tags_failure r =
     (case r of
        TransportError \<Rightarrow> Some RequestException
      | Reply b \<Rightarrow>
          (case b of
             NotJson \<Rightarrow> Some JSONDecodeError
           | Json t \<Rightarrow>
               (case tags t of
                  Missing \<Rightarrow> Some (KeyError ''tags'')
                | Null \<Rightarrow> Some TypeError
                | Items _ \<Rightarrow> None)))"

text \<open>A dictionary that lines 119-134 can have built.\<close>

definition built :: "image_info \<Rightarrow> bool" where
  "built r \<longleftrightarrow> (\<exists>S T img tag sd td. r = image_record S T img tag sd td)"

section \<open>Example registries\<close>

text \<open>
  Two repositories, \<open>app\<close> with the tags \<open>v1\<close> and \<open>v2\<close>, and \<open>db\<close> with the tag \<open>v1\<close>.
  Every source manifest has the digest \<open>sha256:aaa\<close>. The target does not have
  \<open>app:v1\<close>, has \<open>app:v2\<close> with the same digest and \<open>db:v1\<close> with another one.
\<close>

definition example_env :: env where
  "example_env =
     \<lparr>source_registry = ''https://source.example.com'',
      target_registry = ''https://target.example.com'',
      catalog = Reply (Json \<lparr>errors = Missing, repositories = Items [''app'', ''db'']\<rparr>),
      docker = ClientReady,
      tags_list = (\<lambda>img. Reply (Json \<lparr>tags = Items
        (if img = ''app'' then [''v1'', ''v2''] else [''v1''])\<rparr>)),
      source_manifest = (\<lambda>img tag. Reply
        \<lparr>status_code = 200,
         headers = Map.empty(''Docker-Content-Digest'' \<mapsto> ''sha256:aaa'')\<rparr>),
      target_manifest = (\<lambda>img tag.
        if img = ''app'' \<and> tag = ''v1'' then Reply \<lparr>status_code = 404, headers = Map.empty\<rparr>
        else if img = ''app'' then Reply
          \<lparr>status_code = 200,
           headers = Map.empty(''Docker-Content-Digest'' \<mapsto> ''sha256:aaa'')\<rparr>
        else Reply
          \<lparr>status_code = 200,
           headers = Map.empty(''Docker-Content-Digest'' \<mapsto> ''sha256:bbb'')\<rparr>)\<rparr>"

text \<open>
  The catalog lists \<open>broken-repo\<close> before \<open>app\<close>; the tag list request for
  \<open>broken-repo\<close> is answered with a JSON object that has no \<open>tags\<close> (as an error
  payload has none).
\<close>

definition broken_repo_env :: env where
  "broken_repo_env =
     example_env
       \<lparr>catalog := Reply (Json \<lparr>errors = Missing, repositories = Items [''broken-repo'', ''app'']\<rparr>),
        tags_list := (\<lambda>img.
          if img = ''broken-repo'' then Reply (Json \<lparr>tags = Missing\<rparr>)
          else Reply (Json \<lparr>tags = Items [''v1'']\<rparr>))\<rparr>"

text \<open>Every manifest request to the target registry fails in transport.\<close>

definition unreachable_target_env :: env where
  "unreachable_target_env = example_env\<lparr>target_manifest := (\<lambda>img tag. TransportError)\<rparr>"

text \<open>The target manifest request for \<open>app:v2\<close> fails in transport; all others are answered.\<close>

definition dropped_connection_env :: env where
  "dropped_connection_env =
     example_env
       \<lparr>target_manifest := (\<lambda>img tag.
          if img = ''app'' \<and> tag = ''v2'' then TransportError
          else target_manifest example_env img tag)\<rparr>"

text \<open>The catalog request is answered with an error payload.\<close>

definition catalog_error_env :: env where
  "catalog_error_env =
     example_env
       \<lparr>catalog := Reply (Json
          \<lparr>errors = Items [\<lparr>code = ''UNAUTHORIZED'', message = ''authentication required''\<rparr>],
           repositories = Missing\<rparr>)\<rparr>"

section \<open>Facts about the status messages and the records\<close>

lemma status_message_inj: "status_message j = status_message k \<Longrightarrow> j = k"
  by (cases j; cases k) (simp_all add: image_status_def)

lemma image_record_lookup:
  "image_record S T img tag sd td ''image'' = Some img"
  "image_record S T img tag sd td ''tag'' = Some tag"
  "image_record S T img tag sd td ''source_digest'' = Some sd"
  "image_record S T img tag sd td ''target_digest'' = Some td"
  "image_record S T img tag sd td ''status'' = status_of sd td"
  "image_record S T img tag sd td ''pull_command'' =
     Some (''docker pull '' @ re_sub_scheme S @ ''/'' @ img @ '':'' @ tag)"
  "image_record S T img tag sd td ''retag_command'' =
     Some (''docker tag '' @ re_sub_scheme S @ ''/'' @ img @ '':'' @ tag @ '' '' @
           re_sub_scheme T @ ''/'' @ img @ '':'' @ tag)"
  "image_record S T img tag sd td ''push_command'' =
     Some (''docker push '' @ re_sub_scheme T @ ''/'' @ img @ '':'' @ tag)"
  "image_record S T img tag sd td ''cleanup_source'' =
     Some (''docker rmi '' @ re_sub_scheme S @ ''/'' @ img @ '':'' @ tag)"
  "image_record S T img tag sd td ''cleanup_target'' =
     Some (''docker rmi '' @ re_sub_scheme T @ ''/'' @ img @ '':'' @ tag)"
  by (simp_all add: image_record_def Let_def status_of_def)

section \<open>Facts about scheme stripping\<close>

text \<open>A match consumes a stretch of the string that ends in the literal.\<close>

lemma match_scheme_split:
  "match_scheme s = Some rest \<Longrightarrow> \<exists>p. s = p @ ''://'' @ rest"
proof (induction s)
  case Nil
  then show ?case by simp
next
  case (Cons c cs)
  show ?case
  proof (cases "c \<noteq> CHR 0x0A \<and> match_scheme cs = Some rest")
    case True
    then obtain p where "cs = p @ ''://'' @ rest"
      using Cons.IH by blast
    then have "c # cs = (c # p) @ ''://'' @ rest" by simp
    then show ?thesis by blast
  next
    case False
    with Cons.prems have t: "take 3 (c # cs) = ''://''" and r: "rest = drop 3 (c # cs)"
      by (auto split: option.splits if_splits)
    have "c # cs = take 3 (c # cs) @ drop 3 (c # cs)"
      by (rule append_take_drop_id [symmetric])
    with t r have "c # cs = [] @ ''://'' @ rest" by simp
    then show ?thesis by blast
  qed
qed

lemma match_scheme_none: "\<not> sublist ''://'' s \<Longrightarrow> match_scheme s = None"
proof (rule ccontr)
  assume n: "\<not> sublist ''://'' s" and "match_scheme s \<noteq> None"
  then obtain rest where "match_scheme s = Some rest" by auto
  then obtain p where "s = p @ ''://'' @ rest"
    using match_scheme_split by blast
  then have "sublist ''://'' s" by (simp add: sublist_def) blast
  with n show False by simp
qed

lemma re_sub_scheme_id: "\<not> sublist ''://'' s \<Longrightarrow> re_sub_scheme s = s"
proof (induction s)
  case Nil
  show ?case by (subst re_sub_scheme.simps) simp
next
  case (Cons c cs)
  have m: "match_scheme (c # cs) = None"
    using Cons.prems by (rule match_scheme_none)
  have "\<not> sublist ''://'' cs"
    using Cons.prems by (simp add: sublist_Cons_right)
  then have "re_sub_scheme cs = cs" by (rule Cons.IH)
  then show ?case
    using m by (subst re_sub_scheme.simps) simp
qed

lemma match_scheme_literal:
  assumes "\<not> sublist ''://'' h"
  shows "match_scheme (''://'' @ h) = Some h"
proof -
  have "\<not> sublist ''://'' (''//'' @ h)"
    using assms by (simp add: sublist_Cons_right)
  then have "match_scheme (''//'' @ h) = None"
    by (rule match_scheme_none)
  then show ?thesis by simp
qed

lemma match_scheme_prefix:
  "CHR 0x0A \<notin> set p \<Longrightarrow> \<not> sublist ''://'' h \<Longrightarrow> match_scheme (p @ ''://'' @ h) = Some h"
proof (induction p)
  case Nil
  then show ?case using match_scheme_literal by simp
next
  case (Cons c p)
  then have "match_scheme (p @ ''://'' @ h) = Some h" by simp
  moreover have "c \<noteq> CHR 0x0A" using Cons.prems by auto
  ultimately show ?case by simp
qed

lemma re_sub_scheme_strip:
  assumes "CHR 0x0A \<notin> set p" and "\<not> sublist ''://'' h"
  shows "re_sub_scheme (p @ ''://'' @ h) = h"
proof -
  have "match_scheme (p @ ''://'' @ h) = Some h"
    using assms by (rule match_scheme_prefix)
  then have "re_sub_scheme (p @ ''://'' @ h) = re_sub_scheme h"
    by (subst re_sub_scheme.simps) simp
  also have "\<dots> = h" using assms(2) by (rule re_sub_scheme_id)
  finally show ?thesis .
qed

section \<open>The loops only append\<close>

lemma appended_Nil [simp]: "appended st [] = st"
  by (simp add: appended_def)

lemma appended_appended [simp]: "appended (appended st xs) ys = appended st (xs @ ys)"
  by (simp add: appended_def)

lemma appended_fields [simp]:
  "images (appended st ys) = images st @ ys"
  "printed (appended st ys) = printed st"
  "csv_file (appended st ys) = csv_file st"
  by (simp_all add: appended_def)

lemma extends_by_Finished [simp]: "extends_by st ys (Finished s) \<longleftrightarrow> s = appended st ys"
  by (simp add: extends_by_def)

lemma extends_by_Stopped [simp]:
  "extends_by st ys (Stopped e s) \<longleftrightarrow> (\<exists>zs. prefix zs ys \<and> s = appended st zs)"
  by (simp add: extends_by_def)

lemma extends_by_and_then:
  assumes "extends_by st xs r" and "\<And>s. extends_by s ys (f s)"
  shows "extends_by st (xs @ ys) (and_then r f)"
proof (cases r)
  case (Finished s)
  with assms(1) have s: "s = appended st xs" by simp
  have step: "extends_by (appended st xs) ys (f (appended st xs))" by (rule assms(2))
  have "extends_by st (xs @ ys) (f (appended st xs))"
  proof (cases "f (appended st xs)")
    case (Finished s')
    with step show ?thesis by simp
  next
    case (Stopped e s')
    with step obtain zs where "prefix zs ys" and "s' = appended st (xs @ zs)" by auto
    then have "prefix (xs @ zs) (xs @ ys) \<and> s' = appended st (xs @ zs)" by simp
    then have "\<exists>us. prefix us (xs @ ys) \<and> s' = appended st us" by blast
    then show ?thesis using Stopped by simp
  qed
  then show ?thesis using Finished s by (simp add: and_then_def)
next
  case (Stopped e s)
  with assms(1) obtain zs where "prefix zs xs" and "s = appended st zs" by auto
  then have "prefix zs (xs @ ys) \<and> s = appended st zs" by (simp add: prefix_prefix)
  then have "\<exists>us. prefix us (xs @ ys) \<and> s = appended st us" by blast
  then show ?thesis using Stopped by (simp add: and_then_def)
qed

lemma stopped_unchanged: "extends_by st ys (Stopped e st)"
proof -
  have "prefix [] ys \<and> st = appended st []" by simp
  then show ?thesis unfolding extends_by_Stopped by blast
qed

lemma for_each_extends:
  assumes "\<And>x s. extends_by s (g x) (f x s)"
  shows "extends_by st (concat (map g xs)) (for_each f xs st)"
proof (induction xs arbitrary: st)
  case Nil
  show ?case by simp
next
  case (Cons x xs)
  have "extends_by st (g x @ concat (map g xs)) (and_then (f x st) (for_each f xs))"
    using assms Cons.IH by (rule extends_by_and_then)
  then show ?case by simp
qed

lemma process_tag_extends: "extends_by st [record_of w img tag] (process_tag w img tag st)"
  by (cases "source_manifest w img tag"; cases "target_manifest w img tag")
    (simp_all add: process_tag_def record_of_def observed_def stopped_unchanged
      del: extends_by_Stopped)

lemma process_image_extends:
  "extends_by st (records_of_image w img) (process_image w img st)"
proof (cases "tags_failure (tags_list w img)")
  case None
  then obtain t ts where t: "tags_list w img = Reply (Json t)" and ts: "tags t = Items ts"
    by (auto simp: tags_failure_def split: reply.splits body.splits field.splits)
  have "extends_by st (concat (map (\<lambda>tag. [record_of w img tag]) ts))
          (for_each (process_tag w img) ts st)"
    by (rule for_each_extends) (rule process_tag_extends)
  moreover have "concat (map (\<lambda>tag. [record_of w img tag]) ts) = records_of_image w img"
    by (simp add: records_of_image_def tags_of_def listed_def t ts concat_map_singleton)
  ultimately show ?thesis
    by (simp add: process_image_def t ts)
next
  case (Some e)
  then have "process_image w img st = Stopped e st"
    by (auto simp: tags_failure_def process_image_def
        split: reply.splits body.splits field.splits)
  then show ?thesis by (simp add: stopped_unchanged del: extends_by_Stopped)
qed

lemma process_catalog_extends:
  assumes "catalog w = Reply (Json c)"
  shows "extends_by st (expected_records w) (process_catalog w c st)"
proof (cases "repositories c")
  case (Items rs)
  have "extends_by st (concat (map (records_of_image w) rs))
          (for_each (process_image w) rs st)"
    by (rule for_each_extends) (rule process_image_extends)
  then show ?thesis
    by (simp add: process_catalog_def expected_records_def repositories_of_def listed_def
        assms Items)
qed (simp_all add: process_catalog_def stopped_unchanged del: extends_by_Stopped)

section \<open>Printing leaves the report alone\<close>

lemma state_of_simps [simp]:
  "state_of (Finished st) = st"
  "state_of (Stopped e st) = st"
  by (simp_all add: state_of_def)

lemma prints_only_print [simp]: "prints_only st (Finished (print line st))"
  by (simp add: prints_only_def print_def)

lemma prints_only_same [simp]:
  "prints_only st (Finished st)"
  "prints_only st (Stopped e st)"
  by (simp_all add: prints_only_def)

lemma prints_only_after_print: "prints_only (print line st) r \<Longrightarrow> prints_only st r"
  by (simp add: prints_only_def print_def)

lemma prints_only_and_then:
  assumes "prints_only st r" and "\<And>s. prints_only s (f s)"
  shows "prints_only st (and_then r f)"
proof (cases r)
  case (Finished s)
  have "prints_only s (f s)" by (rule assms(2))
  with assms(1) Finished show ?thesis
    by (simp add: prints_only_def and_then_def)
next
  case (Stopped e s)
  with assms(1) show ?thesis by (simp add: and_then_def prints_only_def)
qed

lemma for_each_prints_only:
  assumes "\<And>x s. prints_only s (f x s)"
  shows "prints_only st (for_each f xs st)"
proof (induction xs arbitrary: st)
  case Nil
  show ?case by simp
next
  case (Cons x xs)
  have "prints_only st (and_then (f x st) (for_each f xs))"
    using assms Cons.IH by (rule prints_only_and_then)
  then show ?case by simp
qed

lemma print_item_prints_only: "prints_only st (print_item info key st)"
  by (simp add: print_item_def split: option.splits)

lemma print_transfer_prints_only: "prints_only st (print_transfer info st)"
  unfolding print_transfer_def
  by (auto split: option.splits
      intro!: prints_only_and_then print_item_prints_only prints_only_print)

lemma print_identity_prints_only: "prints_only st (print_identity msg info st)"
  by (simp add: print_identity_def split: option.splits)

lemma list_status_prints_only: "prints_only st (list_status msg st)"
  unfolding list_status_def
  by (rule prints_only_after_print, rule for_each_prints_only)
    (rule print_identity_prints_only)

lemma dry_run_print_prints_only: "prints_only st (dry_run_print st)"
proof -
  have a: "prints_only st
             (for_each print_transfer (drop 1 (images st))
                (print ''These commands would run:'' (print '''' st)))"
    by (rule prints_only_after_print, rule prints_only_after_print, rule for_each_prints_only)
      (rule print_transfer_prints_only)
  have b: "\<And>s. prints_only s (for_each list_status (drop 2 image_status) (print '''' s))"
    by (rule prints_only_after_print, rule for_each_prints_only)
      (rule list_status_prints_only)
  show ?thesis
    unfolding dry_run_print_def using a b by (rule prints_only_and_then)
qed

lemma after_loop:
  "images (state_of (and_then (write_csv s) dry_run_print)) = images s \<and>
   csv_file (state_of (and_then (write_csv s) dry_run_print)) = Some (images s)"
proof -
  let ?s = "print ''CSV export completed'' (s\<lparr>csv_file := Some (images s)\<rparr>)"
  have "prints_only ?s (dry_run_print ?s)" by (rule dry_run_print_prints_only)
  then show ?thesis
    by (simp add: write_csv_def and_then_def prints_only_def print_def)
qed

lemma before_loop:
  "and_then (check_errors w c initial_state) (docker_login w) = Finished initial_state \<or>
   (\<exists>e s. and_then (check_errors w c initial_state) (docker_login w) = Stopped e s \<and>
      images s = [header_record] \<and> csv_file s = None)"
  by (auto simp: check_errors_def docker_login_def and_then_def print_def initial_state_def
      split: field.splits list.splits docker_setup.splits)

lemma and_then_assoc: "and_then (and_then r f) g = and_then r (\<lambda>s. and_then (f s) g)"
  by (cases r) (simp_all add: and_then_def)

lemma and_then_simps [simp]:
  "and_then (Finished s) f = f s"
  "and_then (Stopped e s) f = Stopped e s"
  by (simp_all add: and_then_def)

text \<open>The run, stage by stage.\<close>

lemma run_Json:
  assumes "catalog w = Reply (Json c)"
  shows "run w =
     and_then (and_then (check_errors w c initial_state) (docker_login w))
       (\<lambda>s. and_then (process_catalog w c s) (\<lambda>s. and_then (write_csv s) dry_run_print))"
  by (simp add: run_def assms and_then_assoc)

lemma run_report:
  "prefix (images (state_of (run w))) (header_record # expected_records w) \<and>
   (\<forall>st. run w = Finished st \<longrightarrow>
      images st = header_record # expected_records w \<and> csv_file st = Some (images st))"
proof (cases "\<exists>c. catalog w = Reply (Json c)")
  case False
  then have "run w = Stopped RequestException initial_state \<or>
      run w = Stopped JSONDecodeError initial_state"
    by (cases "catalog w") (auto simp: run_def split: body.splits)
  then show ?thesis by (auto simp: initial_state_def)
next
  case True
  then obtain c where c: "catalog w = Reply (Json c)" by blast
  let ?rest = "\<lambda>s. and_then (process_catalog w c s) (\<lambda>s. and_then (write_csv s) dry_run_print)"
  from before_loop [of w c] show ?thesis
  proof
    assume ok: "and_then (check_errors w c initial_state) (docker_login w) = Finished initial_state"
    have run: "run w = ?rest initial_state"
      by (simp add: run_Json [OF c] ok)
    have ext: "extends_by initial_state (expected_records w) (process_catalog w c initial_state)"
      using c by (rule process_catalog_extends)
    show ?thesis
    proof (cases "process_catalog w c initial_state")
      case (Finished s)
      with ext have s: "s = appended initial_state (expected_records w)" by simp
      have i: "images s = header_record # expected_records w"
        by (simp add: s initial_state_def)
      have "run w = and_then (write_csv s) dry_run_print"
        by (simp add: run Finished)
      with after_loop [of s] have
        "images (state_of (run w)) = images s" "csv_file (state_of (run w)) = Some (images s)"
        by simp_all
      with i show ?thesis by auto
    next
      case (Stopped e s)
      with ext obtain zs where zs: "prefix zs (expected_records w)"
        and s: "s = appended initial_state zs" by auto
      have "run w = Stopped e s" by (simp add: run Stopped)
      then show ?thesis using zs by (simp add: s initial_state_def)
    qed
  next
    assume "\<exists>e s. and_then (check_errors w c initial_state) (docker_login w) = Stopped e s \<and>
      images s = [header_record] \<and> csv_file s = None"
    then obtain e s where "and_then (check_errors w c initial_state) (docker_login w) = Stopped e s"
      and "images s = [header_record]" by blast
    then show ?thesis by (simp add: run_Json [OF c])
  qed
qed

section \<open>Where a run stops\<close>

lemma for_each_append:
  "for_each f (xs @ ys) st = and_then (for_each f xs st) (for_each f ys)"
proof (induction xs arbitrary: st)
  case Nil
  show ?case by simp
next
  case (Cons x xs)
  show ?case by (cases "f x st") (simp_all add: Cons.IH)
qed

lemma for_each_stops:
  assumes "x \<in> set xs" and "\<And>s. \<exists>e s'. f x s = Stopped e s'"
  shows "\<exists>e s'. for_each f xs st = Stopped e s'"
  using assms(1)
proof (induction xs arbitrary: st)
  case Nil
  then show ?case by simp
next
  case (Cons y ys)
  show ?case
  proof (cases "f y st")
    case (Stopped e s')
    then show ?thesis by simp
  next
    case (Finished s)
    with assms(2) [of st] have "x \<noteq> y" by auto
    with Cons.prems have "x \<in> set ys" by simp
    then have "\<exists>e s'. for_each f ys s = Stopped e s'" by (rule Cons.IH)
    then show ?thesis using Finished by simp
  qed
qed

lemma setup_passes:
  assumes "errors c = Missing \<or> errors c = Items []" and "docker w = ClientReady"
  shows "and_then (check_errors w c initial_state) (docker_login w) = Finished initial_state"
  using assms by (auto simp: check_errors_def docker_login_def)

lemma run_in_loop:
  assumes "catalog w = Reply (Json c)"
    and "errors c = Missing \<or> errors c = Items []" and "docker w = ClientReady"
  shows "run w = and_then (process_catalog w c initial_state)
                   (\<lambda>s. and_then (write_csv s) dry_run_print)"
  by (simp add: run_Json [OF assms(1)] setup_passes [OF assms(2,3)])

lemma run_stops_in_loop:
  assumes "catalog w = Reply (Json c)"
    and "errors c = Missing \<or> errors c = Items []" and "docker w = ClientReady"
    and "process_catalog w c initial_state = Stopped e s"
  shows "run w = Stopped e s \<and> csv_file s = None \<and> printed s = [] \<and>
         prefix (images s) (header_record # expected_records w)"
proof -
  have "extends_by initial_state (expected_records w) (process_catalog w c initial_state)"
    using assms(1) by (rule process_catalog_extends)
  with assms(4) obtain zs where "prefix zs (expected_records w)"
    and "s = appended initial_state zs" by auto
  moreover have "run w = Stopped e s"
    by (simp add: run_in_loop [OF assms(1,2,3)] assms(4))
  ultimately show ?thesis
    by (simp add: initial_state_def)
qed

lemma process_image_fails:
  "tags_failure (tags_list w img) = Some err \<Longrightarrow> process_image w img s = Stopped err s"
  by (auto simp: tags_failure_def process_image_def
      split: reply.splits body.splits field.splits)

lemma process_tag_fails:
  "source_manifest w img tag = TransportError \<or> target_manifest w img tag = TransportError \<Longrightarrow>
   process_tag w img tag s = Stopped RequestException s"
  by (auto simp: process_tag_def split: reply.splits)

section \<open>The dry run on records the script built\<close>

lemma print_transfer_record:
  "print_transfer (image_record S T img tag sd td) st =
     Finished
       (if td = '''' then
          st\<lparr>printed := printed st @
            [''docker pull '' @ re_sub_scheme S @ ''/'' @ img @ '':'' @ tag,
             ''docker tag '' @ re_sub_scheme S @ ''/'' @ img @ '':'' @ tag @ '' '' @
               re_sub_scheme T @ ''/'' @ img @ '':'' @ tag,
             ''docker push '' @ re_sub_scheme T @ ''/'' @ img @ '':'' @ tag,
             ''docker rmi '' @ re_sub_scheme S @ ''/'' @ img @ '':'' @ tag,
             ''docker rmi '' @ re_sub_scheme T @ ''/'' @ img @ '':'' @ tag,
             '''']\<rparr>
        else st)"
  by (simp add: print_transfer_def image_record_lookup status_of_def print_item_def
      print_def image_status_def)

lemma print_identity_record:
  "print_identity msg (image_record S T img tag sd td) st =
     Finished (if status_of sd td = Some msg then print (img @ '':'' @ tag) st else st)"
  by (simp add: print_identity_def image_record_lookup status_of_def)

lemma for_each_finishes:
  assumes "\<And>x s. x \<in> set xs \<Longrightarrow> \<exists>s'. f x s = Finished s'"
  shows "\<exists>s'. for_each f xs st = Finished s'"
  using assms
proof (induction xs arbitrary: st)
  case Nil
  show ?case by simp
next
  case (Cons x xs)
  obtain s where s: "f x st = Finished s"
    using Cons.prems [of x st] by auto
  have "\<exists>s'. for_each f xs s = Finished s'"
    by (rule Cons.IH) (simp add: Cons.prems)
  then show ?case by (simp add: s)
qed

lemma built_image_record: "built (image_record S T img tag sd td)"
  unfolding built_def by blast

lemma expected_records_built: "r \<in> set (expected_records w) \<Longrightarrow> built r"
  by (auto simp: expected_records_def records_of_image_def record_of_def built_image_record)

lemma print_transfer_built: "built r \<Longrightarrow> \<exists>s'. print_transfer r s = Finished s'"
  by (auto simp: built_def print_transfer_record)

lemma print_identity_built: "built r \<Longrightarrow> \<exists>s'. print_identity msg r s = Finished s'"
  by (auto simp: built_def print_identity_record)

lemma and_then_Finished: "and_then r Finished = r"
  by (cases r) simp_all

lemma for_each_single: "for_each f [x] st = f x st"
proof -
  have "for_each f [] = Finished" by (rule ext) simp
  then show ?thesis by (simp add: and_then_Finished)
qed

text \<open>Line 170 loops over \<open>image_status[2:]\<close>, which is the conflict message alone.\<close>

lemma dry_run_print_unfold:
  "dry_run_print st =
     and_then
       (for_each print_transfer (drop 1 (images st))
          (print ''These commands would run:'' (print '''' st)))
       (\<lambda>s. list_status (image_status ! 2) (print '''' s))"
proof -
  have "drop 2 image_status = [image_status ! 2]"
    by (simp add: image_status_def)
  then show ?thesis
    unfolding dry_run_print_def by (simp only: for_each_single)
qed

lemma list_status_finishes:
  assumes "\<And>r. r \<in> set (drop 1 (images s)) \<Longrightarrow> built r"
  shows "\<exists>s'. list_status msg s = Finished s'"
  unfolding list_status_def
  by (rule for_each_finishes) (simp add: assms print_identity_built)

lemma dry_run_print_finishes:
  assumes "\<And>r. r \<in> set (drop 1 (images st)) \<Longrightarrow> built r"
  shows "\<exists>s'. dry_run_print st = Finished s'"
proof -
  let ?start = "print ''These commands would run:'' (print '''' st)"
  have "\<exists>s1. for_each print_transfer (drop 1 (images st)) ?start = Finished s1"
    by (rule for_each_finishes) (simp add: assms print_transfer_built)
  then obtain s1 where s1: "for_each print_transfer (drop 1 (images st)) ?start = Finished s1"
    by blast
  have "prints_only ?start (for_each print_transfer (drop 1 (images st)) ?start)"
    by (rule for_each_prints_only) (rule print_transfer_prints_only)
  then have "images s1 = images ?start"
    unfolding s1 by (simp add: prints_only_def)
  then have i: "images (print '''' s1) = images st"
    by (simp add: print_def)
  have "\<exists>s'. list_status (image_status ! 2) (print '''' s1) = Finished s'"
    by (rule list_status_finishes) (simp add: i assms)
  then obtain s' where "list_status (image_status ! 2) (print '''' s1) = Finished s'"
    by blast
  then have "dry_run_print st = Finished s'"
    unfolding dry_run_print_unfold s1 by simp
  then show ?thesis by blast
qed

lemma run_finishes_after_loop:
  assumes "catalog w = Reply (Json c)"
    and "errors c = Missing \<or> errors c = Items []" and "docker w = ClientReady"
    and "process_catalog w c initial_state = Finished s"
  shows "\<exists>st. run w = Finished st"
proof -
  have "extends_by initial_state (expected_records w) (process_catalog w c initial_state)"
    using assms(1) by (rule process_catalog_extends)
  with assms(4) have s: "s = appended initial_state (expected_records w)" by simp
  let ?s = "print ''CSV export completed'' (s\<lparr>csv_file := Some (images s)\<rparr>)"
  have "drop 1 (images ?s) = expected_records w"
    by (simp add: s print_def initial_state_def)
  then have "\<exists>s'. dry_run_print ?s = Finished s'"
    by (intro dry_run_print_finishes) (simp add: expected_records_built)
  then show ?thesis
    by (simp add: run_in_loop [OF assms(1,2,3)] assms(4) write_csv_def)
qed

section \<open>What a finished run prints\<close>

lemma expected_records_identities:
  "expected_records w = map (\<lambda>(img, tag). record_of w img tag) (identities w)"
  by (simp add: expected_records_def identities_def records_of_image_def [abs_def] map_concat
      o_def)

lemma record_of_status:
  "record_of w img tag ''status'' = Some (status_message (status_at w img tag))"
  by (simp add: record_of_def status_at_def image_record_lookup status_of_def observe_def)

lemma status_at_missing:
  "status_at w img tag = MissingOnTarget \<longleftrightarrow> observed (target_manifest w img tag) = ''''"
  by (simp add: status_at_def observe_def)

lemma for_each_printed:
  assumes "\<And>x s. x \<in> set xs \<Longrightarrow> f x s = Finished (s\<lparr>printed := printed s @ g x\<rparr>)"
  shows "for_each f xs st = Finished (st\<lparr>printed := printed st @ concat (map g xs)\<rparr>)"
  using assms
proof (induction xs arbitrary: st)
  case Nil
  show ?case by simp
next
  case (Cons x xs)
  have x: "f x st = Finished (st\<lparr>printed := printed st @ g x\<rparr>)"
    by (rule Cons.prems) simp
  have "for_each f xs (st\<lparr>printed := printed st @ g x\<rparr>) =
      Finished (st\<lparr>printed := printed st @ g x\<rparr>
        \<lparr>printed := printed (st\<lparr>printed := printed st @ g x\<rparr>) @ concat (map g xs)\<rparr>)"
    by (rule Cons.IH) (simp add: Cons.prems)
  then show ?case by (simp add: x)
qed

lemma print_transfer_record_of:
  "print_transfer (record_of w img tag) s =
     Finished (s\<lparr>printed := printed s @ emitted (plan_at w img tag)\<rparr>)"
proof (cases "status_at w img tag = MissingOnTarget")
  case True
  then have "observed (target_manifest w img tag) = ''''"
    by (simp add: status_at_missing)
  then show ?thesis
    using True
    by (simp add: record_of_def print_transfer_record plan_at_def image_ref_def emitted_def)
next
  case False
  then have t: "observed (target_manifest w img tag) \<noteq> ''''"
    by (simp add: status_at_missing)
  from False have "plan_at w img tag = []"
    by (cases "status_at w img tag") (simp_all add: plan_at_def)
  then show ?thesis
    using t by (simp add: record_of_def print_transfer_record emitted_def)
qed

lemma print_identity_record_of:
  "print_identity (status_message k) (record_of w img tag) s =
     Finished (s\<lparr>printed := printed s @
       (if status_at w img tag = k then [img @ '':'' @ tag] else [])\<rparr>)"
proof -
  have "status_of (observed (source_manifest w img tag)) (observed (target_manifest w img tag))
      = Some (status_message (status_at w img tag))"
    by (simp add: status_at_def status_of_def observe_def)
  moreover have "status_message (status_at w img tag) = status_message k \<longleftrightarrow>
      status_at w img tag = k"
    by (auto dest: status_message_inj)
  ultimately show ?thesis
    by (simp add: record_of_def print_identity_record print_def)
qed

lemma concat_map_if:
  "concat (map (\<lambda>x. if P x then [g x] else []) xs) = map g (filter P xs)"
  by (induction xs) simp_all

lemma for_each_map: "for_each f (map g xs) s = for_each (\<lambda>x. f (g x)) xs s"
  by (induction xs arbitrary: s) (simp_all add: and_then_def split: outcome.splits)

lemma print_transfer_all:
  "for_each print_transfer (map (\<lambda>(img, tag). record_of w img tag) ids) s =
     Finished (s\<lparr>printed := printed s @
       concat (map (\<lambda>(img, tag). emitted (plan_at w img tag)) ids)\<rparr>)"
  unfolding for_each_map
  by (rule for_each_printed) (auto simp: print_transfer_record_of)

lemma print_identity_all:
  "for_each (print_identity (status_message k)) (map (\<lambda>(img, tag). record_of w img tag) ids) s =
     Finished (s\<lparr>printed := printed s @
       map (\<lambda>(img, tag). img @ '':'' @ tag)
         (filter (\<lambda>(img, tag). status_at w img tag = k) ids)\<rparr>)"
proof -
  have "for_each (print_identity (status_message k))
          (map (\<lambda>(img, tag). record_of w img tag) ids) s =
     Finished (s\<lparr>printed := printed s @
       concat (map (\<lambda>i. if (case i of (img, tag) \<Rightarrow> status_at w img tag = k)
                          then [case i of (img, tag) \<Rightarrow> img @ '':'' @ tag] else []) ids)\<rparr>)"
    unfolding for_each_map
    by (rule for_each_printed) (auto simp: print_identity_record_of)
  then show ?thesis by (simp only: concat_map_if)
qed

lemma dry_run_print_records:
  assumes "drop 1 (images st) = map (\<lambda>(img, tag). record_of w img tag) ids"
  shows "dry_run_print st =
     Finished (st\<lparr>printed := printed st @ ['''', ''These commands would run:'']
       @ concat (map (\<lambda>(img, tag). emitted (plan_at w img tag)) ids)
       @ ['''', status_message Conflict]
       @ map (\<lambda>(img, tag). img @ '':'' @ tag)
           (filter (\<lambda>(img, tag). status_at w img tag = Conflict) ids)\<rparr>)"
proof -
  let ?recs = "map (\<lambda>(img, tag). record_of w img tag) ids"
  let ?start = "print ''These commands would run:'' (print '''' st)"
  let ?blocks = "concat (map (\<lambda>(img, tag). emitted (plan_at w img tag)) ids)"
  let ?names = "map (\<lambda>(img, tag). img @ '':'' @ tag)
           (filter (\<lambda>(img, tag). status_at w img tag = Conflict) ids)"
  let ?s1 = "?start\<lparr>printed := printed ?start @ ?blocks\<rparr>"
  let ?s2 = "print (status_message Conflict) (print '''' ?s1)"
  have one: "for_each print_transfer (drop 1 (images st)) ?start = Finished ?s1"
    unfolding assms by (rule print_transfer_all)
  have "drop 1 (images (print '''' ?s1)) = ?recs"
    using assms by (simp add: print_def)
  then have "list_status (status_message Conflict) (print '''' ?s1) =
      for_each (print_identity (status_message Conflict)) ?recs ?s2"
    unfolding list_status_def by simp
  also have "\<dots> = Finished (?s2\<lparr>printed := printed ?s2 @ ?names\<rparr>)"
    by (rule print_identity_all)
  finally have two: "list_status (image_status ! 2) (print '''' ?s1) =
      Finished (?s2\<lparr>printed := printed ?s2 @ ?names\<rparr>)"
    by simp
  have "dry_run_print st = Finished (?s2\<lparr>printed := printed ?s2 @ ?names\<rparr>)"
    unfolding dry_run_print_unfold one by (simp add: two)
  then show ?thesis by (simp add: print_def)
qed

lemma finished_run:
  assumes "run w = Finished st"
  shows "run w = dry_run_print (print ''CSV export completed''
           ((appended initial_state (expected_records w))
              \<lparr>csv_file := Some (header_record # expected_records w)\<rparr>))"
proof -
  obtain c where c: "catalog w = Reply (Json c)"
    using assms by (cases "catalog w") (auto simp: run_def split: body.splits)
  let ?rest = "\<lambda>s. and_then (process_catalog w c s) (\<lambda>s. and_then (write_csv s) dry_run_print)"
  from before_loop [of w c] have
    ok: "and_then (check_errors w c initial_state) (docker_login w) = Finished initial_state"
    using assms by (auto simp: run_Json [OF c])
  have run: "run w = ?rest initial_state"
    by (simp add: run_Json [OF c] ok)
  have ext: "extends_by initial_state (expected_records w) (process_catalog w c initial_state)"
    using c by (rule process_catalog_extends)
  obtain s where s: "process_catalog w c initial_state = Finished s"
    using assms run by (cases "process_catalog w c initial_state") simp_all
  with ext have "s = appended initial_state (expected_records w)" by simp
  then show ?thesis
    using run s by (simp add: write_csv_def initial_state_def)
qed

lemma finished_run_printed:
  assumes "run w = Finished st"
  shows "printed st =
     [''CSV export completed'', '''', ''These commands would run:'']
       @ concat (map (\<lambda>(img, tag). emitted (plan_at w img tag)) (identities w))
       @ ['''', status_message Conflict]
       @ map (\<lambda>(img, tag). img @ '':'' @ tag)
           (filter (\<lambda>(img, tag). status_at w img tag = Conflict) (identities w))"
proof -
  let ?s = "print ''CSV export completed''
           ((appended initial_state (expected_records w))
              \<lparr>csv_file := Some (header_record # expected_records w)\<rparr>)"
  have "drop 1 (images ?s) = map (\<lambda>(img, tag). record_of w img tag) (identities w)"
    by (simp add: print_def initial_state_def expected_records_identities)
  then have "dry_run_print ?s = Finished (?s\<lparr>printed := printed ?s @ ['''', ''These commands would run:'']
       @ concat (map (\<lambda>(img, tag). emitted (plan_at w img tag)) (identities w))
       @ ['''', status_message Conflict]
       @ map (\<lambda>(img, tag). img @ '':'' @ tag)
           (filter (\<lambda>(img, tag). status_at w img tag = Conflict) (identities w))\<rparr>)"
    by (rule dry_run_print_records)
  with assms finished_run [OF assms] have "st = ?s\<lparr>printed := printed ?s @ ['''', ''These commands would run:'']
       @ concat (map (\<lambda>(img, tag). emitted (plan_at w img tag)) (identities w))
       @ ['''', status_message Conflict]
       @ map (\<lambda>(img, tag). img @ '':'' @ tag)
           (filter (\<lambda>(img, tag). status_at w img tag = Conflict) (identities w))\<rparr>"
    by simp
  then show ?thesis by (simp add: print_def initial_state_def)
qed

lemma process_images_finished:
  assumes "for_each (process_image w) xs st = Finished s"
  shows "s = appended st (concat (map (records_of_image w) xs))"
proof -
  have "extends_by st (concat (map (records_of_image w) xs)) (for_each (process_image w) xs st)"
    by (rule for_each_extends) (rule process_image_extends)
  then show ?thesis by (simp add: assms)
qed

lemma process_tags_finished:
  assumes "for_each (process_tag w img) xs st = Finished s"
  shows "s = appended st (map (record_of w img) xs)"
proof -
  have "extends_by st (concat (map (\<lambda>tag. [record_of w img tag]) xs))
          (for_each (process_tag w img) xs st)"
    by (rule for_each_extends) (rule process_tag_extends)
  then show ?thesis by (simp add: assms concat_map_singleton)
qed

section \<open>Classification\<close>

text \<open>
  C1. For every pair of digest observations the status assigned to the record follows
  the first-match rule: \<open>MissingOnTarget\<close> when the target observation is absent;
  otherwise \<open>InSync\<close> when both are present and equal; otherwise \<open>Conflict\<close> (both present
  and unequal, or the source absent while the target is present). The two strings range
  over everything lines 105-110 can leave in \<open>source_digest\<close> and \<open>target_digest\<close>.
  This holds of the value that the chain of lines 124-129 assigns, and of the \<open>status\<close>
  entry of the record that lines 119-134 build from the two digests.
\<close>

theorem classification_first_match:
  "status_of source_digest target_digest =
     Some (status_message (classify (observe source_digest) (observe target_digest)))
   \<and> image_record S T img tag source_digest target_digest ''status'' =
     Some (status_message (classify (observe source_digest) (observe target_digest)))"
  by (simp add: image_record_lookup status_of_def observe_def)

text \<open>
  C7. The classification is total and unambiguous: for every pair of digest strings the
  chain of lines 124-129 assigns a status (the case that no branch is taken, which would
  leave the key unset, never occurs), and that status is exactly one of the three. Being
  a function of the two digests alone, it is deterministic and reads or writes nothing
  else.
\<close>

theorem classification_total:
  "\<exists>!k. status_of source_digest target_digest = Some (status_message k)"
proof -
  have "status_of source_digest target_digest =
     Some (status_message (classify (observe source_digest) (observe target_digest)))"
    by (simp add: status_of_def observe_def)
  then show ?thesis
    by (auto dest: status_message_inj)
qed

section \<open>The transfer plan\<close>

text \<open>
  C2. The plan of an identity is what the dry run (lines 154-165) emits for it. A run
  that finishes has printed, after the CSV notice and the heading, the plans of the
  processed identities in enumeration order, each followed by an empty line, and then the
  conflict message with the identities in conflict. The plan of an identity has exactly
  five steps, in the order pull from source, tag for target, push to target, remove the
  local source copy, remove the local target copy, when its status is \<open>MissingOnTarget\<close>,
  and no step when it is \<open>InSync\<close> or \<open>Conflict\<close>. The same holds of the dry run's step
  for a single record the script built. The five command strings are stored in every
  record (lines 130-134); the status decides whether they become a plan.
\<close>

theorem transfer_plan_by_status:
  assumes "r = image_record S T img tag source_digest target_digest"
    and "source_image = re_sub_scheme S @ ''/'' @ img @ '':'' @ tag"
    and "target_image = re_sub_scheme T @ ''/'' @ img @ '':'' @ tag"
  shows "(run w = Finished st \<longrightarrow>
            printed st =
              [''CSV export completed'', '''', ''These commands would run:'']
              @ concat (map (\<lambda>(img, tag). emitted (plan_at w img tag)) (identities w))
              @ ['''', status_message Conflict]
              @ map (\<lambda>(img, tag). img @ '':'' @ tag)
                  (filter (\<lambda>(img, tag). status_at w img tag = Conflict) (identities w)))
       \<and> length (plan_at w img' tag') = (if status_at w img' tag' = MissingOnTarget then 5 else 0)
       \<and> (r ''status'' = Some (status_message MissingOnTarget) \<longrightarrow>
            print_transfer r s =
              Finished (s\<lparr>printed := printed s @
                [''docker pull '' @ source_image,
                 ''docker tag '' @ source_image @ '' '' @ target_image,
                 ''docker push '' @ target_image,
                 ''docker rmi '' @ source_image,
                 ''docker rmi '' @ target_image,
                 '''']\<rparr>))
       \<and> (r ''status'' = Some (status_message InSync) \<or>
          r ''status'' = Some (status_message Conflict) \<longrightarrow>
            print_transfer r s = Finished s)"
proof -
  have run: "run w = Finished st \<longrightarrow>
            printed st =
              [''CSV export completed'', '''', ''These commands would run:'']
              @ concat (map (\<lambda>(img, tag). emitted (plan_at w img tag)) (identities w))
              @ ['''', status_message Conflict]
              @ map (\<lambda>(img, tag). img @ '':'' @ tag)
                  (filter (\<lambda>(img, tag). status_at w img tag = Conflict) (identities w))"
    using finished_run_printed [of w st] by blast
  have len: "length (plan_at w img' tag') =
      (if status_at w img' tag' = MissingOnTarget then 5 else 0)"
    by (cases "status_at w img' tag'") (simp_all add: plan_at_def)
  have m: "r ''status'' = Some (status_message MissingOnTarget) \<longleftrightarrow> target_digest = ''''"
    unfolding assms(1) image_record_lookup
    by (simp add: status_of_def image_status_def)
  have o: "r ''status'' = Some (status_message InSync) \<or>
      r ''status'' = Some (status_message Conflict) \<longleftrightarrow> target_digest \<noteq> ''''"
    unfolding assms(1) image_record_lookup
    by (simp add: status_of_def image_status_def)
  have rec: "(r ''status'' = Some (status_message MissingOnTarget) \<longrightarrow>
            print_transfer r s =
              Finished (s\<lparr>printed := printed s @
                [''docker pull '' @ source_image,
                 ''docker tag '' @ source_image @ '' '' @ target_image,
                 ''docker push '' @ target_image,
                 ''docker rmi '' @ source_image,
                 ''docker rmi '' @ target_image,
                 '''']\<rparr>))
       \<and> (r ''status'' = Some (status_message InSync) \<or>
          r ''status'' = Some (status_message Conflict) \<longrightarrow>
            print_transfer r s = Finished s)"
    unfolding m o unfolding assms print_transfer_record by simp
  from run len rec show ?thesis by blast
qed

text \<open>
  The run on the example registries, whose three identities have the three statuses, and
  the three scenarios of the specification: target absent, same digest, other digest.
\<close>

theorem transfer_plan_by_status_witness:
  "(\<exists>st. run example_env = Finished st \<and>
      printed st =
        [''CSV export completed'', '''', ''These commands would run:'',
         ''docker pull source.example.com/app:v1'',
         ''docker tag source.example.com/app:v1 target.example.com/app:v1'',
         ''docker push target.example.com/app:v1'',
         ''docker rmi source.example.com/app:v1'',
         ''docker rmi target.example.com/app:v1'',
         '''',
         '''',
         ''Conflict: same tag exist in both registries with different digest'',
         ''db:v1''])
   \<and> print_transfer
      (image_record ''https://source.example.com'' ''https://target.example.com''
         ''app'' ''v1'' ''sha256:aaa'' '''') initial_state
     = Finished (initial_state\<lparr>printed :=
         [''docker pull source.example.com/app:v1'',
          ''docker tag source.example.com/app:v1 target.example.com/app:v1'',
          ''docker push target.example.com/app:v1'',
          ''docker rmi source.example.com/app:v1'',
          ''docker rmi target.example.com/app:v1'',
          '''']\<rparr>)
   \<and> print_transfer
      (image_record ''https://source.example.com'' ''https://target.example.com''
         ''app'' ''v1'' ''sha256:aaa'' ''sha256:aaa'') initial_state = Finished initial_state
   \<and> print_transfer
      (image_record ''https://source.example.com'' ''https://target.example.com''
         ''app'' ''v1'' ''sha256:aaa'' ''sha256:bbb'') initial_state = Finished initial_state"
proof -
  let ?S = "''https://source.example.com''" and ?T = "''https://target.example.com''"
  have s: "re_sub_scheme ''https://source.example.com'' = ''source.example.com''"
    by code_simp
  have t: "re_sub_scheme ''https://target.example.com'' = ''target.example.com''"
    by code_simp
  have c: "catalog example_env =
      Reply (Json \<lparr>errors = Missing, repositories = Items [''app'', ''db'']\<rparr>)"
    by (simp add: example_env_def)
  have "\<exists>s. process_catalog example_env
      \<lparr>errors = Missing, repositories = Items [''app'', ''db'']\<rparr> initial_state = Finished s"
    by (simp add: process_catalog_def process_image_def process_tag_def example_env_def)
  then obtain s0 where p: "process_catalog example_env
      \<lparr>errors = Missing, repositories = Items [''app'', ''db'']\<rparr> initial_state = Finished s0"
    by blast
  have d: "docker example_env = ClientReady" by (simp add: example_env_def)
  have "\<exists>st. run example_env = Finished st"
    using c _ d p by (rule run_finishes_after_loop) simp
  then obtain st where st: "run example_env = Finished st" by blast
  have ids: "identities example_env = [(''app'', ''v1''), (''app'', ''v2''), (''db'', ''v1'')]"
    by (simp add: identities_def repositories_of_def tags_of_def listed_def example_env_def)
  have st1: "status_at example_env ''app'' ''v1'' = MissingOnTarget"
    by (simp add: status_at_def observed_def digest_of_def observe_def example_env_def)
  have st2: "status_at example_env ''app'' ''v2'' = InSync"
    by (simp add: status_at_def observed_def digest_of_def observe_def example_env_def)
  have st3: "status_at example_env ''db'' ''v1'' = Conflict"
    by (simp add: status_at_def observed_def digest_of_def observe_def example_env_def)
  have regs: "source_registry example_env = ''https://source.example.com''"
    "target_registry example_env = ''https://target.example.com''"
    by (simp_all add: example_env_def)
  have a: "image_record ?S ?T ''app'' ''v1'' ''sha256:aaa'' '''' ''status''
      = Some (status_message MissingOnTarget)"
    by (simp add: image_record_lookup status_of_def)
  have b: "image_record ?S ?T ''app'' ''v1'' ''sha256:aaa'' ''sha256:aaa'' ''status''
      = Some (status_message InSync)"
    by (simp add: image_record_lookup status_of_def)
  have e: "image_record ?S ?T ''app'' ''v1'' ''sha256:aaa'' ''sha256:bbb'' ''status''
      = Some (status_message Conflict)"
    by (simp add: image_record_lookup status_of_def)
  have "printed st =
        [''CSV export completed'', '''', ''These commands would run:'',
         ''docker pull source.example.com/app:v1'',
         ''docker tag source.example.com/app:v1 target.example.com/app:v1'',
         ''docker push target.example.com/app:v1'',
         ''docker rmi source.example.com/app:v1'',
         ''docker rmi target.example.com/app:v1'',
         '''',
         '''',
         ''Conflict: same tag exist in both registries with different digest'',
         ''db:v1'']"
    using transfer_plan_by_status [OF refl refl refl, where w = example_env and st = st] st
    by (simp add: ids st1 st2 st3 plan_at_def image_ref_def emitted_def regs s t
        image_status_def)
  with st have run: "\<exists>st. run example_env = Finished st \<and>
      printed st =
        [''CSV export completed'', '''', ''These commands would run:'',
         ''docker pull source.example.com/app:v1'',
         ''docker tag source.example.com/app:v1 target.example.com/app:v1'',
         ''docker push target.example.com/app:v1'',
         ''docker rmi source.example.com/app:v1'',
         ''docker rmi target.example.com/app:v1'',
         '''',
         '''',
         ''Conflict: same tag exist in both registries with different digest'',
         ''db:v1'']"
    by blast
  have rec: "print_transfer (image_record ?S ?T ''app'' ''v1'' ''sha256:aaa'' '''') initial_state
     = Finished (initial_state\<lparr>printed :=
         [''docker pull source.example.com/app:v1'',
          ''docker tag source.example.com/app:v1 target.example.com/app:v1'',
          ''docker push target.example.com/app:v1'',
          ''docker rmi source.example.com/app:v1'',
          ''docker rmi target.example.com/app:v1'',
          '''']\<rparr>)
   \<and> print_transfer (image_record ?S ?T ''app'' ''v1'' ''sha256:aaa'' ''sha256:aaa'')
        initial_state = Finished initial_state
   \<and> print_transfer (image_record ?S ?T ''app'' ''v1'' ''sha256:aaa'' ''sha256:bbb'')
        initial_state = Finished initial_state"
    using a b e
      transfer_plan_by_status [OF refl refl refl, where S = ?S and T = ?T
        and img = "''app''" and tag = "''v1''" and source_digest = "''sha256:aaa''"
        and target_digest = "''''" and s = initial_state]
      transfer_plan_by_status [OF refl refl refl, where S = ?S and T = ?T
        and img = "''app''" and tag = "''v1''" and source_digest = "''sha256:aaa''"
        and target_digest = "''sha256:aaa''" and s = initial_state]
      transfer_plan_by_status [OF refl refl refl, where S = ?S and T = ?T
        and img = "''app''" and tag = "''v1''" and source_digest = "''sha256:aaa''"
        and target_digest = "''sha256:bbb''" and s = initial_state]
    by (simp add: s t initial_state_def)
  from run rec show ?thesis by blast
qed

section \<open>Failing requests\<close>

text \<open>
  C3, as the script has it. When the tag list of a repository of the catalog cannot be
  retrieved (the request raises, the body is not JSON, the key \<open>tags\<close> is missing, or
  its value is \<open>null\<close>), nothing catches the exception: the run stops, no CSV file is
  written and nothing is printed, so no warning is recorded and no report is produced;
  the records held at that moment are those of an initial stretch of the enumeration.
  When the repositories before the failing one went through, the run stops at that
  repository with exactly its exception, holding the header and the records of the
  repositories before it, and the repositories after it are never asked for.
\<close>

theorem tag_list_failure_stops_run:
  assumes "catalog w = Reply (Json c)"
    and "errors c = Missing \<or> errors c = Items []"
    and "docker w = ClientReady"
    and "repositories c = Items rs"
    and "img \<in> set rs"
    and "tags_failure (tags_list w img) = Some err"
  shows "(\<exists>e s. run w = Stopped e s \<and> csv_file s = None \<and> printed s = [] \<and>
            prefix (images s) (header_record # expected_records w))
       \<and> (rs = before @ img # after \<and>
            for_each (process_image w) before initial_state = Finished s1 \<longrightarrow>
            run w = Stopped err s1 \<and>
            images s1 = header_record # concat (map (records_of_image w) before))"
proof
  have "\<And>s. \<exists>e s'. process_image w img s = Stopped e s'"
    using assms(6) by (simp add: process_image_fails)
  with assms(5) have "\<exists>e s. for_each (process_image w) rs initial_state = Stopped e s"
    by (rule for_each_stops)
  then obtain e s where "process_catalog w c initial_state = Stopped e s"
    by (auto simp: process_catalog_def assms(4))
  with assms(1,2,3) have "run w = Stopped e s \<and> csv_file s = None \<and> printed s = [] \<and>
         prefix (images s) (header_record # expected_records w)"
    by (rule run_stops_in_loop)
  then show "\<exists>e s. run w = Stopped e s \<and> csv_file s = None \<and> printed s = [] \<and>
            prefix (images s) (header_record # expected_records w)"
    by blast
next
  show "rs = before @ img # after \<and>
            for_each (process_image w) before initial_state = Finished s1 \<longrightarrow>
            run w = Stopped err s1 \<and>
            images s1 = header_record # concat (map (records_of_image w) before)"
  proof
    assume a: "rs = before @ img # after \<and>
            for_each (process_image w) before initial_state = Finished s1"
    have "process_image w img s1 = Stopped err s1"
      using assms(6) by (rule process_image_fails)
    with a have "process_catalog w c initial_state = Stopped err s1"
      by (simp add: process_catalog_def assms(4) for_each_append)
    with assms(1,2,3) have "run w = Stopped err s1"
      by (simp add: run_stops_in_loop)
    moreover from a have "s1 = appended initial_state (concat (map (records_of_image w) before))"
      by (simp add: process_images_finished)
    then have "images s1 = header_record # concat (map (records_of_image w) before)"
      by (simp add: initial_state_def)
    ultimately show "run w = Stopped err s1 \<and>
            images s1 = header_record # concat (map (records_of_image w) before)"
      by simp
  qed
qed

text \<open>
  \<open>app\<close> is processed, then \<open>broken-repo\<close> stops the run; \<open>db\<close> is never reached and
  nothing is exported.
\<close>

theorem tag_list_failure_stops_run_witness:
  "\<exists>s. run (broken_repo_env
        \<lparr>catalog := Reply (Json \<lparr>errors = Missing,
            repositories = Items [''app'', ''broken-repo'', ''db'']\<rparr>)\<rparr>)
       = Stopped (KeyError ''tags'') s
     \<and> images s =
         [header_record,
          image_record ''https://source.example.com'' ''https://target.example.com''
            ''app'' ''v1'' ''sha256:aaa'' '''']
     \<and> csv_file s = None \<and> printed s = []"
proof -
  let ?c = "\<lparr>errors = Missing, repositories = Items [''app'', ''broken-repo'', ''db'']\<rparr>"
  let ?w = "broken_repo_env\<lparr>catalog := Reply (Json ?c)\<rparr>"
  let ?s = "initial_state\<lparr>images := [header_record,
          image_record ''https://source.example.com'' ''https://target.example.com''
            ''app'' ''v1'' ''sha256:aaa'' '''']\<rparr>"
  have 1: "catalog ?w = Reply (Json ?c)" by simp
  have 2: "errors ?c = Missing \<or> errors ?c = Items []" by simp
  have 3: "docker ?w = ClientReady" by (simp add: broken_repo_env_def example_env_def)
  have 4: "repositories ?c = Items [''app'', ''broken-repo'', ''db'']" by simp
  have 5: "''broken-repo'' \<in> set [''app'', ''broken-repo'', ''db'']" by simp
  have 6: "tags_failure (tags_list ?w ''broken-repo'') = Some (KeyError ''tags'')"
    by (simp add: tags_failure_def broken_repo_env_def example_env_def)
  have 7: "[''app'', ''broken-repo'', ''db''] = [''app''] @ ''broken-repo'' # [''db''] \<and>
      for_each (process_image ?w) [''app''] initial_state = Finished ?s"
    by (simp add: process_image_def process_tag_def broken_repo_env_def example_env_def
        digest_of_def initial_state_def)
  have "run ?w = Stopped (KeyError ''tags'') ?s"
    using tag_list_failure_stops_run [OF 1 2 3 4 5 6, of "[''app'']" "[''db'']" ?s] 7
    by blast
  then show ?thesis by (simp add: initial_state_def)
qed

text \<open>
  Against C3 as stated: with \<open>broken-repo\<close> first in the catalog the run does not
  complete and \<open>app\<close> gets no record; the run ends in the \<open>KeyError\<close>, with \<open>images\<close>
  still holding the header alone.
\<close>

theorem tag_list_failure_counterexample:
  "run broken_repo_env = Stopped (KeyError ''tags'') initial_state"
  by (simp add: run_def broken_repo_env_def example_env_def check_errors_def docker_login_def
      process_catalog_def process_image_def)

text \<open>
  C4, as the script has it. A transport failure of a manifest request (source or target)
  for an enumerated image:tag is not caught: that loop step stops with the request's
  exception and appends no record, and the run stops with no CSV file written and nothing
  printed, holding the records of an initial stretch of the enumeration. When everything
  enumerated before that identity went through, the run stops at that identity with the
  request's exception, holding the header and exactly the records of the identities
  before it. There is no lookup-failed outcome and no unresolved marker: every record
  that is built carries one of the three statuses.
\<close>

theorem manifest_failure_stops_run:
  assumes "catalog w = Reply (Json c)"
    and "errors c = Missing \<or> errors c = Items []"
    and "docker w = ClientReady"
    and "repositories c = Items rs"
    and "img \<in> set rs"
    and "tags_list w img = Reply (Json t)"
    and "tags t = Items ts"
    and "tag \<in> set ts"
    and "source_manifest w img tag = TransportError \<or> target_manifest w img tag = TransportError"
  shows "process_tag w img tag s0 = Stopped RequestException s0
       \<and> (\<exists>e s. run w = Stopped e s \<and> csv_file s = None \<and> printed s = [] \<and>
            prefix (images s) (header_record # expected_records w))
       \<and> (\<exists>k. record_of w img' tag' ''status'' = Some (status_message k))
       \<and> (rs = before @ img # after \<and>
            for_each (process_image w) before initial_state = Finished s1 \<and>
            ts = tags_before @ tag # tags_after \<and>
            for_each (process_tag w img) tags_before s1 = Finished s2 \<longrightarrow>
            run w = Stopped RequestException s2 \<and>
            images s2 = header_record # concat (map (records_of_image w) before)
                          @ map (record_of w img) tags_before)"
proof -
  have step: "process_tag w img tag s0 = Stopped RequestException s0"
    using assms(9) by (rule process_tag_fails)
  have "\<And>s. \<exists>e s'. process_tag w img tag s = Stopped e s'"
    using assms(9) by (simp add: process_tag_fails)
  with assms(8) have "\<And>s. \<exists>e s'. for_each (process_tag w img) ts s = Stopped e s'"
    by (rule for_each_stops)
  then have "\<And>s. \<exists>e s'. process_image w img s = Stopped e s'"
    by (simp add: process_image_def assms(6,7))
  with assms(5) have "\<exists>e s. for_each (process_image w) rs initial_state = Stopped e s"
    by (rule for_each_stops)
  then obtain e s where "process_catalog w c initial_state = Stopped e s"
    by (auto simp: process_catalog_def assms(4))
  with assms(1,2,3) have "run w = Stopped e s \<and> csv_file s = None \<and> printed s = [] \<and>
         prefix (images s) (header_record # expected_records w)"
    by (rule run_stops_in_loop)
  then have stop: "\<exists>e s. run w = Stopped e s \<and> csv_file s = None \<and> printed s = [] \<and>
            prefix (images s) (header_record # expected_records w)"
    by blast
  have "record_of w img' tag' ''status'' =
      Some (status_message (classify (observe (observed (source_manifest w img' tag')))
        (observe (observed (target_manifest w img' tag')))))"
    by (simp add: record_of_def image_record_lookup status_of_def observe_def)
  then have three: "\<exists>k. record_of w img' tag' ''status'' = Some (status_message k)"
    by blast
  have first: "rs = before @ img # after \<and>
            for_each (process_image w) before initial_state = Finished s1 \<and>
            ts = tags_before @ tag # tags_after \<and>
            for_each (process_tag w img) tags_before s1 = Finished s2 \<longrightarrow>
            run w = Stopped RequestException s2 \<and>
            images s2 = header_record # concat (map (records_of_image w) before)
                          @ map (record_of w img) tags_before"
  proof
    assume a: "rs = before @ img # after \<and>
            for_each (process_image w) before initial_state = Finished s1 \<and>
            ts = tags_before @ tag # tags_after \<and>
            for_each (process_tag w img) tags_before s1 = Finished s2"
    have "process_tag w img tag s2 = Stopped RequestException s2"
      using assms(9) by (rule process_tag_fails)
    with a have "for_each (process_tag w img) ts s1 = Stopped RequestException s2"
      by (simp add: for_each_append)
    then have "process_image w img s1 = Stopped RequestException s2"
      by (simp add: process_image_def assms(6,7))
    with a have "process_catalog w c initial_state = Stopped RequestException s2"
      by (simp add: process_catalog_def assms(4) for_each_append)
    with assms(1,2,3) have r: "run w = Stopped RequestException s2"
      by (simp add: run_stops_in_loop)
    from a have "s1 = appended initial_state (concat (map (records_of_image w) before))"
      by (simp add: process_images_finished)
    moreover from a have "s2 = appended s1 (map (record_of w img) tags_before)"
      by (simp add: process_tags_finished)
    ultimately have "images s2 = header_record # concat (map (records_of_image w) before)
                          @ map (record_of w img) tags_before"
      by (simp add: initial_state_def)
    with r show "run w = Stopped RequestException s2 \<and>
            images s2 = header_record # concat (map (records_of_image w) before)
                          @ map (record_of w img) tags_before"
      by simp
  qed
  from step stop three first show ?thesis by (intro conjI)
qed

text \<open>
  \<open>app:v1\<close> is processed, then the target request for \<open>app:v2\<close> stops the run with its
  exception.
\<close>

theorem manifest_failure_stops_run_witness:
  "run dropped_connection_env = Stopped RequestException
     \<lparr>images =
        [header_record,
         image_record ''https://source.example.com'' ''https://target.example.com''
           ''app'' ''v1'' ''sha256:aaa'' ''''],
      printed = [], csv_file = None\<rparr>"
proof -
  let ?c = "\<lparr>errors = Missing, repositories = Items [''app'', ''db'']\<rparr>"
  let ?w = "dropped_connection_env"
  let ?s = "initial_state\<lparr>images := [header_record,
          image_record ''https://source.example.com'' ''https://target.example.com''
            ''app'' ''v1'' ''sha256:aaa'' '''']\<rparr>"
  have 1: "catalog ?w = Reply (Json ?c)"
    by (simp add: dropped_connection_env_def example_env_def)
  have 2: "errors ?c = Missing \<or> errors ?c = Items []" by simp
  have 3: "docker ?w = ClientReady" by (simp add: dropped_connection_env_def example_env_def)
  have 4: "repositories ?c = Items [''app'', ''db'']" by simp
  have 5: "''app'' \<in> set [''app'', ''db'']" by simp
  have 6: "tags_list ?w ''app'' = Reply (Json \<lparr>tags = Items [''v1'', ''v2'']\<rparr>)"
    by (simp add: dropped_connection_env_def example_env_def)
  have 7: "tags \<lparr>tags = Items [''v1'', ''v2'']\<rparr> = Items [''v1'', ''v2'']" by simp
  have 8: "''v2'' \<in> set [''v1'', ''v2'']" by simp
  have 9: "source_manifest ?w ''app'' ''v2'' = TransportError \<or>
      target_manifest ?w ''app'' ''v2'' = TransportError"
    by (simp add: dropped_connection_env_def)
  have 10: "[''app'', ''db''] = [] @ ''app'' # [''db''] \<and>
      for_each (process_image ?w) [] initial_state = Finished initial_state \<and>
      [''v1'', ''v2''] = [''v1''] @ ''v2'' # [] \<and>
      for_each (process_tag ?w ''app'') [''v1''] initial_state = Finished ?s"
    by (simp add: process_tag_def dropped_connection_env_def example_env_def digest_of_def
        initial_state_def)
  have "run ?w = Stopped RequestException ?s"
    using manifest_failure_stops_run [OF 1 2 3 4 5 6 7 8 9,
        where before = "[]" and after = "[''db'']" and ?s1.0 = initial_state
          and tags_before = "[''v1'']" and tags_after = "[]" and ?s2.0 = ?s] 10
    by blast
  then show ?thesis by (simp add: initial_state_def)
qed

text \<open>
  Against C4 as stated: when the target registry cannot be reached, no record is kept for
  \<open>app:v1\<close>, marked or not; the run ends in the exception of the first target request.
\<close>

theorem manifest_failure_counterexample:
  "run unreachable_target_env = Stopped RequestException initial_state"
  by (simp add: run_def unreachable_target_env_def example_env_def check_errors_def
      docker_login_def process_catalog_def process_image_def process_tag_def)

text \<open>
  C5. When the catalog reply of the source registry carries an error payload (a list
  under \<open>errors\<close> with at least one entry), the run ends at once with \<open>exit(1)\<close>, after
  printing an empty line, a line naming the source registry and a line with the code and
  the message of the first error. \<open>images\<close> holds the header alone and no CSV file is
  written: no record is produced.
\<close>

theorem catalog_error_aborts:
  assumes "catalog w = Reply (Json c)" and "errors c = Items (error # others)"
  shows "run w = Stopped (SystemExit 1)
           \<lparr>images = [header_record],
            printed = ['''',
              ''Error connecting to '' @ source_registry w @ '':'',
              code error @ '': '' @ message error],
            csv_file = None\<rparr>"
  using assms
  by (simp add: run_def check_errors_def print_def initial_state_def)

theorem catalog_error_aborts_witness:
  "run catalog_error_env = Stopped (SystemExit 1)
     \<lparr>images = [header_record],
      printed = ['''',
        ''Error connecting to https://source.example.com:'',
        ''UNAUTHORIZED: authentication required''],
      csv_file = None\<rparr>"
proof -
  have "catalog catalog_error_env = Reply (Json
          \<lparr>errors = Items [\<lparr>code = ''UNAUTHORIZED'', message = ''authentication required''\<rparr>],
           repositories = Missing\<rparr>)"
    by (simp add: catalog_error_env_def)
  then show ?thesis
    using catalog_error_aborts [of catalog_error_env _
        "\<lparr>code = ''UNAUTHORIZED'', message = ''authentication required''\<rparr>" "[]"]
    by (simp add: catalog_error_env_def example_env_def)
qed

section \<open>Digest lookup\<close>

text \<open>
  C6, as the script has it. The lookup yields \<open>Present d\<close> exactly when the response
  carries a \<open>Docker-Content-Digest\<close> header with the non-empty value \<open>d\<close>, and \<open>Absent\<close>
  exactly when the header is missing or its value is empty; the status code does not
  matter.
\<close>

theorem digest_lookup_header:
  "(observe (digest_of r) = Present d) =
      (headers r ''Docker-Content-Digest'' = Some d \<and> d \<noteq> '''')
   \<and> (observe (digest_of r) = Absent) =
      (headers r ''Docker-Content-Digest'' = None \<or>
       headers r ''Docker-Content-Digest'' = Some '''')
   \<and> digest_of (r\<lparr>status_code := n\<rparr>) = digest_of r"
  by (auto simp: observe_def digest_of_def split: option.splits)

text \<open>
  Against C6 as stated: a response that carries the header, with an empty value, yields
  what a response without the header yields, \<open>Absent\<close>.
\<close>

theorem digest_lookup_empty_header_counterexample:
  "headers \<lparr>status_code = 200, headers = Map.empty(''Docker-Content-Digest'' \<mapsto> '''')\<rparr>
      ''Docker-Content-Digest'' = Some ''''
   \<and> headers \<lparr>status_code = 404, headers = Map.empty\<rparr> ''Docker-Content-Digest'' = None
   \<and> digest_of
        \<lparr>status_code = 200, headers = Map.empty(''Docker-Content-Digest'' \<mapsto> '''')\<rparr>
     = digest_of \<lparr>status_code = 404, headers = Map.empty\<rparr>
   \<and> observe (digest_of
        \<lparr>status_code = 200, headers = Map.empty(''Docker-Content-Digest'' \<mapsto> '''')\<rparr>)
     = Absent"
  by (simp add: observe_def digest_of_def)

text \<open>
  C10. A \<open>Docker-Content-Digest\<close> header with the empty string as its value is treated
  like a missing header: the lookup leaves the same digest string, so the record is the
  same. An empty target value gives the status \<open>MissingOnTarget\<close> and the full transfer
  plan in the dry run; an empty source value with a non-empty target value gives
  \<open>Conflict\<close>.
\<close>

theorem empty_digest_value_as_absent:
  assumes "headers empty_reply ''Docker-Content-Digest'' = Some ''''"
  shows "(headers absent_reply ''Docker-Content-Digest'' = None \<longrightarrow>
            digest_of empty_reply = digest_of absent_reply)
       \<and> image_record S T img tag (digest_of source_reply) (digest_of empty_reply) ''status''
            = Some (status_message MissingOnTarget)
       \<and> print_transfer
            (image_record S T img tag (digest_of source_reply) (digest_of empty_reply)) st
            = Finished (st\<lparr>printed := printed st @
                [''docker pull '' @ re_sub_scheme S @ ''/'' @ img @ '':'' @ tag,
                 ''docker tag '' @ re_sub_scheme S @ ''/'' @ img @ '':'' @ tag @ '' '' @
                   re_sub_scheme T @ ''/'' @ img @ '':'' @ tag,
                 ''docker push '' @ re_sub_scheme T @ ''/'' @ img @ '':'' @ tag,
                 ''docker rmi '' @ re_sub_scheme S @ ''/'' @ img @ '':'' @ tag,
                 ''docker rmi '' @ re_sub_scheme T @ ''/'' @ img @ '':'' @ tag,
                 '''']\<rparr>)
       \<and> (headers target_reply ''Docker-Content-Digest'' = Some d \<and> d \<noteq> '''' \<longrightarrow>
            image_record S T img tag (digest_of empty_reply) (digest_of target_reply) ''status''
            = Some (status_message Conflict))"
proof -
  have e: "digest_of empty_reply = ''''"
    using assms by (simp add: digest_of_def)
  show ?thesis
    unfolding print_transfer_record image_record_lookup e
    by (simp add: digest_of_def status_of_def)
qed

theorem empty_digest_value_as_absent_witness:
  "digest_of \<lparr>status_code = 200, headers = Map.empty(''Docker-Content-Digest'' \<mapsto> '''')\<rparr>
     = digest_of \<lparr>status_code = 404, headers = Map.empty\<rparr>
   \<and> image_record ''https://source.example.com'' ''https://target.example.com'' ''app'' ''v1''
        ''sha256:aaa''
        (digest_of \<lparr>status_code = 200,
           headers = Map.empty(''Docker-Content-Digest'' \<mapsto> '''')\<rparr>) ''status''
      = Some ''Image doesn't exist on target''
   \<and> image_record ''https://source.example.com'' ''https://target.example.com'' ''app'' ''v1''
        (digest_of \<lparr>status_code = 200,
           headers = Map.empty(''Docker-Content-Digest'' \<mapsto> '''')\<rparr>)
        ''sha256:bbb'' ''status''
      = Some ''Conflict: same tag exist in both registries with different digest''"
proof -
  let ?e = "\<lparr>status_code = 200, headers = Map.empty(''Docker-Content-Digest'' \<mapsto> '''')\<rparr>"
  let ?a = "\<lparr>status_code = 404, headers = Map.empty\<rparr>"
  let ?s = "\<lparr>status_code = 200,
    headers = Map.empty(''Docker-Content-Digest'' \<mapsto> ''sha256:aaa'')\<rparr>"
  let ?t = "\<lparr>status_code = 200,
    headers = Map.empty(''Docker-Content-Digest'' \<mapsto> ''sha256:bbb'')\<rparr>"
  have h: "headers ?e ''Docker-Content-Digest'' = Some ''''" by simp
  show ?thesis
    using empty_digest_value_as_absent [OF h, of ?a "''https://source.example.com''"
        "''https://target.example.com''" "''app''" "''v1''" ?s initial_state ?t "''sha256:bbb''"]
    by (simp add: image_status_def digest_of_def)
qed

section \<open>Image references\<close>

text \<open>
  C8. For a registry address \<open>scheme://host\<close> (a scheme without a line break, a host that
  does not itself contain \<open>://\<close>) and every repository and tag, the image references in
  the five command templates are \<open>host/repository:tag\<close>, the scheme stripped. The
  witness is the specification's scenario: source \<open>https://source.example.com\<close>, target
  \<open>https://target.example.com\<close>, identity (app, v1), where the push command refers to
  \<open>target.example.com/app:v1\<close>.
\<close>

theorem scheme_stripped_references:
  assumes "CHR 0x0A \<notin> set source_scheme" and "\<not> sublist ''://'' source_host"
    and "CHR 0x0A \<notin> set target_scheme" and "\<not> sublist ''://'' target_host"
    and "r = image_record (source_scheme @ ''://'' @ source_host)
               (target_scheme @ ''://'' @ target_host) img tag source_digest target_digest"
  shows "r ''pull_command'' = Some (''docker pull '' @ source_host @ ''/'' @ img @ '':'' @ tag)
    \<and> r ''retag_command'' = Some (''docker tag '' @ source_host @ ''/'' @ img @ '':'' @ tag
          @ '' '' @ target_host @ ''/'' @ img @ '':'' @ tag)
    \<and> r ''push_command'' = Some (''docker push '' @ target_host @ ''/'' @ img @ '':'' @ tag)
    \<and> r ''cleanup_source'' = Some (''docker rmi '' @ source_host @ ''/'' @ img @ '':'' @ tag)
    \<and> r ''cleanup_target'' = Some (''docker rmi '' @ target_host @ ''/'' @ img @ '':'' @ tag)"
proof -
  have s: "re_sub_scheme (source_scheme @ ''://'' @ source_host) = source_host"
    using assms(1,2) by (rule re_sub_scheme_strip)
  have t: "re_sub_scheme (target_scheme @ ''://'' @ target_host) = target_host"
    using assms(3,4) by (rule re_sub_scheme_strip)
  show ?thesis
    unfolding assms(5) image_record_lookup s t by simp
qed

theorem scheme_stripped_references_witness:
  "image_record ''https://source.example.com'' ''https://target.example.com''
      ''app'' ''v1'' ''sha256:aaa'' '''' ''push_command''
     = Some ''docker push target.example.com/app:v1''"
proof -
  have a: "CHR 0x0A \<notin> set ''https''" by simp
  have b: "\<not> sublist ''://'' ''source.example.com''" by code_simp
  have c: "\<not> sublist ''://'' ''target.example.com''" by code_simp
  show ?thesis
    using scheme_stripped_references [OF a b a c refl, of "''app''" "''v1''" "''sha256:aaa''" "''''"]
    by simp
qed

section \<open>The report\<close>

text \<open>
  C9. \<open>images\<close> is append-only and keeps the enumeration order. At the end of every run,
  finished or stopped, it is an initial stretch of the header followed by the records in
  catalog enumeration order (repositories in catalog order, tags in tag list order); when
  the run finishes it is the header followed by all of them, each once, and the CSV rows
  are that list. Each loop step that goes through changes the state by appending its one
  record and nothing else, so no earlier record is changed or removed.
\<close>

theorem report_append_only_in_order:
  "prefix (images (state_of (run w))) (header_record # expected_records w)
   \<and> (run w = Finished st \<longrightarrow>
        images st = header_record # expected_records w \<and> csv_file st = Some (images st))
   \<and> (process_tag w img tag s = Finished s' \<longrightarrow>
        s' = s\<lparr>images := images s @ [record_of w img tag]\<rparr>)"
proof -
  have "extends_by s [record_of w img tag] (process_tag w img tag s)"
    by (rule process_tag_extends)
  then have "process_tag w img tag s = Finished s' \<longrightarrow>
        s' = s\<lparr>images := images s @ [record_of w img tag]\<rparr>"
    by (auto simp: appended_def)
  with run_report [of w] show ?thesis by blast
qed

text \<open>The example registries: three records after the header, in enumeration order.\<close>

theorem report_append_only_in_order_witness:
  "\<exists>st. run example_env = Finished st
     \<and> images st =
         [header_record,
          image_record ''https://source.example.com'' ''https://target.example.com''
            ''app'' ''v1'' ''sha256:aaa'' '''',
          image_record ''https://source.example.com'' ''https://target.example.com''
            ''app'' ''v2'' ''sha256:aaa'' ''sha256:aaa'',
          image_record ''https://source.example.com'' ''https://target.example.com''
            ''db'' ''v1'' ''sha256:aaa'' ''sha256:bbb'']
     \<and> csv_file st = Some (images st)"
proof -
  have c: "catalog example_env =
      Reply (Json \<lparr>errors = Missing, repositories = Items [''app'', ''db'']\<rparr>)"
    by (simp add: example_env_def)
  have "\<exists>s. process_catalog example_env
      \<lparr>errors = Missing, repositories = Items [''app'', ''db'']\<rparr> initial_state = Finished s"
    by (simp add: process_catalog_def process_image_def process_tag_def example_env_def)
  then obtain s where p: "process_catalog example_env
      \<lparr>errors = Missing, repositories = Items [''app'', ''db'']\<rparr> initial_state = Finished s"
    by blast
  have d: "docker example_env = ClientReady" by (simp add: example_env_def)
  have "\<exists>st. run example_env = Finished st"
    using c _ d p by (rule run_finishes_after_loop) simp
  then obtain st where st: "run example_env = Finished st" by blast
  have e: "expected_records example_env =
         [image_record ''https://source.example.com'' ''https://target.example.com''
            ''app'' ''v1'' ''sha256:aaa'' '''',
          image_record ''https://source.example.com'' ''https://target.example.com''
            ''app'' ''v2'' ''sha256:aaa'' ''sha256:aaa'',
          image_record ''https://source.example.com'' ''https://target.example.com''
            ''db'' ''v1'' ''sha256:aaa'' ''sha256:bbb'']"
    by (simp add: expected_records_def records_of_image_def record_of_def repositories_of_def
        tags_of_def listed_def observed_def digest_of_def example_env_def)
  show ?thesis
    using report_append_only_in_order [of example_env st] st e by simp
qed

end
